(* ===== verification/Prelude.thy ===== *)
theory Prelude
  imports Main "HOL-Library.Product_Lexorder"
begin

text \<open>
  Shared vocabulary of the study-log development: the Python exceptions that the
  handlers of \<^verbatim>\<open>src/routers/study_router.py\<close> raise or let propagate (as one
  datatype, so that every \<^verbatim>\<open>raise\<close> is an \<open>Inl\<close> value), the decoded JSON values of
  a token payload, Python's insertion-ordered \<^verbatim>\<open>dict\<close> as an association list, the
  bind of the exception monad \<open>exc + 'a\<close>, and the generic lemmas on these that the
  component theories share.
\<close>

named_theorems calendar_simps "evaluation rules of the calendar model"
named_theorems handler_simps "unfolding rules of the request handlers"

section \<open>Exceptions and HTTP status\<close>

text \<open>
  \<open>ValueError\<close> and \<open>OverflowError\<close> are the exceptions of Python's \<^verbatim>\<open>datetime\<close>;
  \<open>HTTPException code detail\<close> is FastAPI's. Anything that is not an
  \<open>HTTPException\<close> reaches the client as an internal server error (500).
\<close>

datatype exc = ValueError | OverflowError | HTTPException int string

definition status_of :: "exc \<Rightarrow> int" where
  "status_of e = (case e of HTTPException c _ \<Rightarrow> c | _ \<Rightarrow> 500)"

type_synonym 'a result = "exc + 'a"

primrec bind_exc :: "'a result \<Rightarrow> ('a \<Rightarrow> 'b result) \<Rightarrow> 'b result" where
  "bind_exc (Inl e) f = Inl e"
| "bind_exc (Inr a) f = f a"

section \<open>Decoded JSON values and token payloads\<close>

text \<open>
  A verified token's payload is a Python \<^verbatim>\<open>dict\<close> decoded from JSON: keys are
  strings, values JSON values. \<^verbatim>\<open>payload.get(k)\<close> is \<open>None\<close> (here \<open>JNull\<close>) both
  when \<open>k\<close> is missing and when it maps to JSON \<^verbatim>\<open>null\<close>.
\<close>

datatype jval = JNull | JBool bool | JInt int | JStr string

type_synonym payload = "string \<rightharpoonup> jval"

definition dict_get :: "payload \<Rightarrow> string \<Rightarrow> jval" where
  "dict_get p k = (case p k of None \<Rightarrow> JNull | Some v \<Rightarrow> v)"

section \<open>Python's insertion-ordered dict\<close>

text \<open>
  \<^verbatim>\<open>d[k] = v\<close> overwrites the value of a present key in place (its position is
  kept) and appends a new key at the end.
\<close>

fun dict_setitem :: "('k \<times> 'v) list \<Rightarrow> 'k \<Rightarrow> 'v \<Rightarrow> ('k \<times> 'v) list" where
  "dict_setitem [] k v = [(k, v)]"
| "dict_setitem ((k', v') # ps) k v =
     (if k' = k then (k', v) # ps else (k', v') # dict_setitem ps k v)"

section \<open>First match in a list\<close>

text \<open>
  The position of the first element satisfying a predicate: what an ORM's
  \<^verbatim>\<open>.first()\<close> returns, as a reference into the table rather than a copy.
\<close>

fun first_index :: "('a \<Rightarrow> bool) \<Rightarrow> 'a list \<Rightarrow> nat option" where
  "first_index P [] = None"
| "first_index P (x # xs) = (if P x then Some 0 else map_option Suc (first_index P xs))"

section \<open>Generic lemmas\<close>

lemma status_of_simps [simp]:
  "status_of ValueError = 500"
  "status_of OverflowError = 500"
  "status_of (HTTPException c d) = c"
  by (simp_all add: status_of_def)

lemma bind_exc_eq_Inr [simp]:
  "(bind_exc m f = Inr b) \<longleftrightarrow> (\<exists>a. m = Inr a \<and> f a = Inr b)"
  by (cases m) auto

lemma bind_exc_eq_Inl [simp]:
  "(bind_exc m f = Inl e) \<longleftrightarrow> (m = Inl e \<or> (\<exists>a. m = Inr a \<and> f a = Inl e))"
  by (cases m) auto

lemma dict_setitem_keys_present:
  "k \<in> set (map fst ps) \<Longrightarrow> map fst (dict_setitem ps k v) = map fst ps"
  by (induction ps) force+

lemma dict_setitem_lookup:
  "map_of (dict_setitem ps k v) = (map_of ps)(k \<mapsto> v)"
  by (induction ps) (auto simp: fun_eq_iff)

lemma dict_setitem_length:
  "k \<in> set (map fst ps) \<Longrightarrow> length (dict_setitem ps k v) = length ps"
  using dict_setitem_keys_present by (metis length_map)


lemma first_index_Some:
  "first_index P xs = Some i \<Longrightarrow> i < length xs \<and> P (xs ! i) \<and> (\<forall>j < i. \<not> P (xs ! j))"
proof (induction xs arbitrary: i)
  case Nil
  then show ?case by simp
next
  case (Cons x xs)
  then show ?case by (auto simp: less_Suc_eq_0_disj split: if_splits)
qed

lemma first_index_None: "first_index P xs = None \<longleftrightarrow> (\<forall>x \<in> set xs. \<not> P x)"
  by (induction xs) auto

lemma map_of_list_update_same_key:
  "distinct (map fst ps) \<Longrightarrow> i < length ps \<Longrightarrow>
   map_of (ps[i := (fst (ps ! i), v)]) = (map_of ps)(fst (ps ! i) \<mapsto> v)"
proof (induction ps arbitrary: i)
  case Nil
  then show ?case by simp
next
  case (Cons p ps)
  show ?case
  proof (cases i)
    case 0
    then show ?thesis by (cases p) (simp add: fun_eq_iff)
  next
    case (Suc j)
    with Cons.prems have "fst (ps ! j) \<noteq> fst p"
      by (metis distinct.simps(2) list.simps(9) nth_mem length_map nth_map Suc_less_eq length_Cons)
    with Cons Suc show ?thesis by (cases p) (simp add: fun_eq_iff)
  qed
qed

lemma map_of_snoc_fresh:
  "k \<notin> set (map fst ps) \<Longrightarrow> map_of (ps @ [(k, v)]) = (map_of ps)(k \<mapsto> v)"
  by (induction ps) (auto simp: fun_eq_iff)

lemma dict_setitem_fresh: "k \<notin> set (map fst ps) \<Longrightarrow> dict_setitem ps k v = ps @ [(k, v)]"
  by (induction ps) auto

lemma foldl_dict_setitem_fresh:
  "distinct (map f xs) \<Longrightarrow> set (map f xs) \<inter> set (map fst r) = {} \<Longrightarrow>
   foldl (\<lambda>r x. dict_setitem r (f x) (g x)) r xs = r @ map (\<lambda>x. (f x, g x)) xs"
  by (induction xs arbitrary: r) (auto simp: dict_setitem_fresh)

lemma foldl_dict_setitem_keys:
  "\<forall>x \<in> set xs. f x \<in> set (map fst r) \<Longrightarrow>
   map fst (foldl (\<lambda>r x. dict_setitem r (f x) (g x)) r xs) = map fst r"
proof (induction xs arbitrary: r)
  case Nil
  then show ?case by simp
next
  case (Cons a xs)
  then have k: "map fst (dict_setitem r (f a) (g a)) = map fst r"
    by (simp add: dict_setitem_keys_present)
  with Cons.prems have "\<forall>x \<in> set xs. f x \<in> set (map fst (dict_setitem r (f a) (g a)))"
    by simp
  then have "map fst (foldl (\<lambda>r x. dict_setitem r (f x) (g x)) (dict_setitem r (f a) (g a)) xs)
      = map fst (dict_setitem r (f a) (g a))"
    by (rule Cons.IH)
  with k show ?case by simp
qed

lemma foldl_dict_setitem_map_of:
  "map_of (foldl (\<lambda>r x. dict_setitem r (f x) (g x)) r xs) k =
     (case filter (\<lambda>x. f x = k) (rev xs) of [] \<Rightarrow> map_of r k | y # _ \<Rightarrow> Some (g y))"
  by (induction xs arbitrary: r) (auto simp: dict_setitem_lookup split: list.splits)

lemma alist_by_keys:
  "distinct (map fst ps) \<Longrightarrow> ps = map (\<lambda>k. (k, the (map_of ps k))) (map fst ps)"
proof (induction ps)
  case Nil
  then show ?case by simp
next
  case (Cons p ps)
  obtain a b where p: "p = (a, b)" by (cases p)
  with Cons.prems have a: "a \<notin> set (map fst ps)" and d: "distinct (map fst ps)" by simp_all
  have "map (\<lambda>k. (k, the (map_of (p # ps) k))) (map fst ps) = map (\<lambda>k. (k, the (map_of ps k))) (map fst ps)"
    using a p by (intro map_cong) auto
  with Cons.IH [OF d] p show ?case by simp
qed

lemma drop_bit_5_int [simp]: "drop_bit 5 (k::int) = k div 32"
  by (simp add: drop_bit_eq_div)

end
