(* ===== verification/Calendar.thy ===== *)
theory Calendar
  imports Prelude
begin

text \<open>
  Python's \<^verbatim>\<open>datetime.date\<close> as the handlers use it: the proleptic Gregorian
  calendar of CPython's \<^verbatim>\<open>Lib/datetime.py\<close> (\<^verbatim>\<open>_is_leap\<close>,
  \<^verbatim>\<open>_days_before_year\<close>, \<^verbatim>\<open>_days_in_month\<close>, \<^verbatim>\<open>_days_before_month\<close>,
  \<^verbatim>\<open>_ymd2ord\<close>, \<^verbatim>\<open>_ord2ymd\<close>, \<^verbatim>\<open>_check_date_fields\<close>), the conversions
  \<^verbatim>\<open>toordinal\<close>/\<^verbatim>\<open>fromordinal\<close>, \<^verbatim>\<open>date + timedelta(days=k)\<close> with its
  \<^verbatim>\<open>OverflowError\<close>, \<^verbatim>\<open>str(date)\<close> (\<^verbatim>\<open>isoformat\<close>) and the comparison of dates.
  Python's integers are unbounded: every field is an \<open>int\<close>, and floor division
  \<^verbatim>\<open>//\<close>, \<^verbatim>\<open>%\<close> are HOL's \<open>div\<close>, \<open>mod\<close> on \<open>int\<close>.
\<close>

section \<open>Dates\<close>

datatype date = Date (year: int) (month: int) (day: int)

text \<open>\<^verbatim>\<open>date._cmp\<close> compares the tuples \<^verbatim>\<open>(year, month, day)\<close>.\<close>

definition date_tuple :: "date \<Rightarrow> int \<times> int \<times> int" where
  "date_tuple d = (year d, month d, day d)"

instantiation date :: linorder
begin

definition less_eq_date :: "date \<Rightarrow> date \<Rightarrow> bool" where
  "less_eq_date a b \<longleftrightarrow> date_tuple a \<le> date_tuple b"

definition less_date :: "date \<Rightarrow> date \<Rightarrow> bool" where
  "less_date a b \<longleftrightarrow> date_tuple a < date_tuple b"

instance
proof
  fix a b c :: date
  show "a < b \<longleftrightarrow> a \<le> b \<and> \<not> b \<le> a"
    by (auto simp: less_eq_date_def less_date_def)
  show "a \<le> a" by (simp add: less_eq_date_def)
  show "a \<le> b \<Longrightarrow> b \<le> c \<Longrightarrow> a \<le> c"
    unfolding less_eq_date_def by (rule order_trans)
  show "a \<le> b \<Longrightarrow> b \<le> a \<Longrightarrow> a = b"
    unfolding less_eq_date_def date_tuple_def by (cases a; cases b) auto
  show "a \<le> b \<or> b \<le> a"
    unfolding less_eq_date_def by (rule linear)
qed

end

section \<open>Calendar arithmetic of \<^verbatim>\<open>datetime.py\<close>\<close>

abbreviation MAXORDINAL :: int where
  "MAXORDINAL \<equiv> 3652059"

abbreviation DAYS_IN_MONTH :: "int list" where
  "DAYS_IN_MONTH \<equiv> [-1, 31, 28, 31, 30, 31, 30, 31, 31, 30, 31, 30, 31]"

abbreviation DAYS_BEFORE_MONTH :: "int list" where
  "DAYS_BEFORE_MONTH \<equiv> [-1, 0, 31, 59, 90, 120, 151, 181, 212, 243, 273, 304, 334]"

definition is_leap :: "int \<Rightarrow> bool" where
  "is_leap yr \<longleftrightarrow> yr mod 4 = 0 \<and> (yr mod 100 \<noteq> 0 \<or> yr mod 400 = 0)"

definition days_before_year :: "int \<Rightarrow> int" where
  "days_before_year yr = (let y = yr - 1 in y * 365 + y div 4 - y div 100 + y div 400)"

definition days_in_month :: "int \<Rightarrow> int \<Rightarrow> int" where
  "days_in_month yr mon =
     (if mon = 2 \<and> is_leap yr then 29 else DAYS_IN_MONTH ! nat mon)"

definition days_before_month :: "int \<Rightarrow> int \<Rightarrow> int" where
  "days_before_month yr mon =
     DAYS_BEFORE_MONTH ! nat mon + (if mon > 2 \<and> is_leap yr then 1 else 0)"

definition ymd2ord :: "int \<Rightarrow> int \<Rightarrow> int \<Rightarrow> int" where
  "ymd2ord yr mon dy = days_before_year yr + days_before_month yr mon + dy"

text \<open>
  The tail of \<^verbatim>\<open>_ord2ymd\<close>: given the 0-based day \<open>n\<close> of a year that is not
  its last day, the estimate \<^verbatim>\<open>month = (n + 50) >> 5\<close> is too large by at most
  one month; it is corrected and the 1-based day of the month returned.
\<close>

definition month_and_day :: "bool \<Rightarrow> int \<Rightarrow> int \<times> int" where
  "month_and_day leapyear n =
     (let mon = drop_bit 5 (n + 50);
          preceding = DAYS_BEFORE_MONTH ! nat mon + (if mon > 2 \<and> leapyear then 1 else 0)
      in if preceding > n then
           (let mon = mon - 1;
                preceding = preceding - (DAYS_IN_MONTH ! nat mon
                              + (if mon = 2 \<and> leapyear then 1 else 0))
            in (mon, n - preceding + 1))
         else (mon, n - preceding + 1))"

text \<open>
  \<^verbatim>\<open>_ord2ymd\<close>: the \<^verbatim>\<open>divmod\<close> chain by 400-, 100-, 4- and 1-year cycles,
  the last day of a 4- or 400-year cycle as a special case, then the month.
\<close>

definition ord2ymd :: "int \<Rightarrow> int \<times> int \<times> int" where
  "ord2ymd n0 =
    (let n = n0 - 1;
         n400 = n div 146097; n = n mod 146097;
         yr = n400 * 400 + 1;
         n100 = n div 36524; n = n mod 36524;
         n4 = n div 1461; n = n mod 1461;
         n1 = n div 365; n = n mod 365;
         yr = yr + n100 * 100 + n4 * 4 + n1
     in if n1 = 4 \<or> n100 = 4 then (yr - 1, 12, 31)
        else
          (let leapyear = (n1 = 3 \<and> (n4 \<noteq> 24 \<or> n100 = 3));
               (mon, dy) = month_and_day leapyear n
           in (yr, mon, dy)))"

text \<open>\<^verbatim>\<open>_check_date_fields\<close>: the validation every \<^verbatim>\<open>date(y, m, d)\<close> runs.\<close>

definition check_date_fields :: "int \<Rightarrow> int \<Rightarrow> int \<Rightarrow> date result" where
  "check_date_fields y m d =
     (if \<not> (1 \<le> y \<and> y \<le> 9999) then Inl ValueError
      else if \<not> (1 \<le> m \<and> m \<le> 12) then Inl ValueError
      else if \<not> (1 \<le> d \<and> d \<le> days_in_month y m) then Inl ValueError
      else Inr (Date y m d))"

definition toordinal :: "date \<Rightarrow> int" where
  "toordinal dt = ymd2ord (year dt) (month dt) (day dt)"

definition fromordinal :: "int \<Rightarrow> date result" where
  "fromordinal n = (case ord2ymd n of (y, m, d) \<Rightarrow> check_date_fields y m d)"

text \<open>
  \<^verbatim>\<open>date.__add__(timedelta(days=k))\<close>; \<^verbatim>\<open>date - timedelta(days=k)\<close> is
  \<^verbatim>\<open>date + timedelta(-k)\<close>, i.e. \<open>date_add d (- k)\<close>.
\<close>

definition date_add :: "date \<Rightarrow> int \<Rightarrow> date result" where
  "date_add dt k =
     (let n = toordinal dt + k
      in if 0 < n \<and> n \<le> MAXORDINAL then fromordinal n else Inl OverflowError)"

text \<open>
  The dates \<^verbatim>\<open>_check_date_fields\<close> accepts; every \<^verbatim>\<open>date\<close> object Python
  can hold satisfies it.
\<close>

definition valid_date :: "date \<Rightarrow> bool" where
  "valid_date dt \<longleftrightarrow> 1 \<le> year dt \<and> year dt \<le> 9999 \<and> 1 \<le> month dt \<and> month dt \<le> 12
     \<and> 1 \<le> day dt \<and> day dt \<le> days_in_month (year dt) (month dt)"

section \<open>\<^verbatim>\<open>str(date)\<close>\<close>

definition char_of_digit :: "nat \<Rightarrow> char" where
  "char_of_digit n = ''0123456789'' ! n"

fun digits_of_nat :: "nat \<Rightarrow> string" where
  "digits_of_nat n =
     (if n < 10 then [char_of_digit n]
      else digits_of_nat (n div 10) @ [char_of_digit (n mod 10)])"

declare digits_of_nat.simps [simp del]

text \<open>\<^verbatim>\<open>'%0<w>d' % i\<close>: zero-padded to width \<open>w\<close>, the sign counted in the width.\<close>

definition zpad :: "nat \<Rightarrow> string \<Rightarrow> string" where
  "zpad w s = replicate (w - length s) (CHR ''0'') @ s"

definition fmt_0d :: "nat \<Rightarrow> int \<Rightarrow> string" where
  "fmt_0d w i =
     (if i < 0 then ''-'' @ zpad (w - 1) (digits_of_nat (nat (- i)))
      else zpad w (digits_of_nat (nat i)))"

definition isoformat :: "date \<Rightarrow> string" where
  "isoformat dt = fmt_0d 4 (year dt) @ ''-'' @ fmt_0d 2 (month dt) @ ''-'' @ fmt_0d 2 (day dt)"

section \<open>Lemmas: floor division\<close>

lemma floor_div_eq:
  assumes "0 < (d::int)" "d * q \<le> x" "x < d * q + d"
  shows "x div d = q"
proof -
  have "x = (x - d * q) + d * q" by simp
  then have "x div d = (x - d * q) div d + q"
    using assms(1) by (metis div_mult_self2 less_irrefl add.commute)
  moreover have "(x - d * q) div d = 0"
    using assms by (intro div_pos_pos_trivial) simp_all
  ultimately show ?thesis by simp
qed

lemma div_succ_int:
  assumes "0 < (d::int)"
  shows "(x + 1) div d = x div d + (if (x + 1) mod d = 0 then 1 else 0)"
proof -
  let ?q = "x div d" and ?r = "x mod d"
  have x: "x = d * ?q + ?r" by simp
  have r: "0 \<le> ?r" "?r < d" using assms by simp_all
  show ?thesis
  proof (cases "?r + 1 = d")
    case True
    have "d * (?q + 1) = d * ?q + d" by (simp add: distrib_left)
    with x True have x1: "x + 1 = d * (?q + 1)" by linarith
    have "(x + 1) div d = ?q + 1" unfolding x1 using assms by simp
    moreover have "(x + 1) mod d = 0" unfolding x1 by simp
    ultimately show ?thesis by simp
  next
    case False
    have x1: "x + 1 = d * ?q + (?r + 1)" using x by linarith
    have q: "(x + 1) div d = ?q"
      by (rule floor_div_eq) (use assms r False x1 in linarith)+
    have "(x + 1) mod d = (d * ?q + (?r + 1)) mod d" by (simp only: x1)
    also have "\<dots> = (?r + 1) mod d" by (subst add.commute) (rule mod_mult_self2)
    also have "\<dots> = ?r + 1" using r False by (intro mod_pos_pos_trivial) simp_all
    finally have "(x + 1) mod d = ?r + 1" .
    then show ?thesis using q r by simp
  qed
qed

section \<open>Lemmas: the 400-year cycle\<close>

lemma leap_indicator:
  "(C \<Longrightarrow> B) \<Longrightarrow> (B \<Longrightarrow> A) \<Longrightarrow>
   (if A \<and> (\<not> B \<or> C) then 1 else 0) = (if A then 1 else 0) - (if B then 1 else 0) + (if C then (1::int) else 0)"
  by (cases A; cases B; cases C) simp_all

lemma days_before_year_succ:
  "days_before_year (y + 1) = days_before_year y + 365 + (if is_leap y then 1 else 0)"
proof -
  have d4: "y div 4 - (y - 1) div 4 = (if y mod 4 = 0 then 1 else 0)"
    using div_succ_int [of 4 "y - 1"] by simp
  have d100: "y div 100 - (y - 1) div 100 = (if y mod 100 = 0 then 1 else 0)"
    using div_succ_int [of 100 "y - 1"] by simp
  have d400: "y div 400 - (y - 1) div 400 = (if y mod 400 = 0 then 1 else 0)"
    using div_succ_int [of 400 "y - 1"] by simp
  have l1: "y mod 400 = 0 \<Longrightarrow> y mod 100 = 0"
    using mod_mod_cancel [of 100 400 y] by simp
  have l2: "y mod 100 = 0 \<Longrightarrow> y mod 4 = 0"
    using mod_mod_cancel [of 4 100 y] by simp
  have leap: "(if is_leap y then 1 else 0) =
      (if y mod 4 = 0 then 1 else 0) - (if y mod 100 = 0 then 1 else 0) + (if y mod 400 = 0 then (1::int) else 0)"
    unfolding is_leap_def using l1 l2 by (rule leap_indicator)
  have "days_before_year (y + 1) - days_before_year y =
      365 + (y div 4 - (y - 1) div 4) - (y div 100 - (y - 1) div 100) + (y div 400 - (y - 1) div 400)"
    unfolding days_before_year_def Let_def by (simp add: algebra_simps)
  then show ?thesis using d4 d100 d400 leap by linarith
qed

lemma dby_cycle:
  assumes "0 \<le> b" "b \<le> 3" "0 \<le> c" "c \<le> 24" "0 \<le> e" "e \<le> 3"
  shows "days_before_year (400 * a + 100 * b + 4 * c + e + 1) = 146097 * a + 36524 * b + 1461 * c + 365 * e"
proof -
  let ?y = "400 * a + 100 * b + 4 * c + e"
  have "?y div 4 = 100 * a + 25 * b + c"
    by (rule floor_div_eq) (use assms in \<open>simp_all add: distrib_left\<close>)
  moreover have "?y div 100 = 4 * a + b"
    by (rule floor_div_eq) (use assms in \<open>simp_all add: distrib_left\<close>)
  moreover have "?y div 400 = a"
    by (rule floor_div_eq) (use assms in \<open>simp_all add: distrib_left\<close>)
  ultimately show ?thesis unfolding days_before_year_def Let_def by simp
qed

lemma leap_cycle:
  assumes "0 \<le> b" "b \<le> 3" "0 \<le> c" "c \<le> 24" "0 \<le> e" "e \<le> 3"
  shows "is_leap (400 * a + 100 * b + 4 * c + e + 1) \<longleftrightarrow> (e = 3 \<and> (c \<noteq> 24 \<or> b = 3))"
proof -
  let ?Y = "400 * a + 100 * b + 4 * c + e + 1"
  have "?Y = (e + 1) + 4 * (100 * a + 25 * b + c)" by simp
  then have m4: "?Y mod 4 = (e + 1) mod 4" by (simp only: mod_mult_self2)
  have e4: "(e + 1) mod 4 = 0 \<longleftrightarrow> e = 3" using assms(5,6) by presburger
  show ?thesis
  proof (cases "e = 3")
    case False
    with m4 e4 show ?thesis by (simp add: is_leap_def)
  next
    case True
    then have "?Y = 4 * (c + 1) + 100 * (4 * a + b)" by simp
    then have m100: "?Y mod 100 = (4 * (c + 1)) mod 100" by (simp only: mod_mult_self2)
    have c25: "(4 * (c + 1)) mod 100 = 0 \<longleftrightarrow> c = 24" using assms(3,4) by presburger
    have "c = 24 \<Longrightarrow> ?Y = 100 * (b + 1) + 400 * a" using True by simp
    then have m400: "c = 24 \<Longrightarrow> ?Y mod 400 = (100 * (b + 1)) mod 400"
      by (simp only: mod_mult_self2)
    have b4: "(100 * (b + 1)) mod 400 = 0 \<longleftrightarrow> b = 3" using assms(1,2) by presburger
    have "?Y mod 4 = 0" using True m4 by simp
    then show ?thesis using True m100 c25 m400 b4 unfolding is_leap_def by auto
  qed
qed

section \<open>Lemmas: \<^verbatim>\<open>_ord2ymd\<close> inverts \<^verbatim>\<open>_ymd2ord\<close>\<close>

lemma month_and_day_ok:
  assumes "0 \<le> r" "r < 365" "month_and_day (is_leap yr) r = (m, d)"
  shows "1 \<le> m \<and> m \<le> 12 \<and> 1 \<le> d \<and> d \<le> days_in_month yr m \<and> days_before_month yr m + d = r + 1"
proof -
  define k where "k = (r + 50) div 32"
  have kb: "32 * k \<le> r + 50" "r + 50 < 32 * k + 32"
    unfolding k_def by (simp_all add: mult.commute [of 32] minus_mod_eq_mult_div [symmetric])
  then have "1 \<le> k" "k \<le> 12" using assms(1,2) by linarith+
  then have "k = 1 \<or> k = 2 \<or> k = 3 \<or> k = 4 \<or> k = 5 \<or> k = 6 \<or> k = 7 \<or> k = 8 \<or> k = 9 \<or> k = 10 \<or> k = 11 \<or> k = 12"
    by presburger
  then show ?thesis
    using assms kb unfolding month_and_day_def k_def [symmetric] Let_def drop_bit_5_int days_in_month_def days_before_month_def
    by (cases "is_leap yr") (auto split: if_splits)
qed

lemma ord2ymd_cycles:
  fixes n :: int
  defines "q \<equiv> n - 1"
  defines "a \<equiv> q div 146097" and "r1 \<equiv> q mod 146097"
  defines "b \<equiv> r1 div 36524" and "r2 \<equiv> r1 mod 36524"
  defines "c \<equiv> r2 div 1461" and "r3 \<equiv> r2 mod 1461"
  defines "e \<equiv> r3 div 365" and "r \<equiv> r3 mod 365"
  shows "ord2ymd n =
           (if e = 4 \<or> b = 4 then (400 * a + 100 * b + 4 * c + e, 12, 31)
            else (case month_and_day (e = 3 \<and> (c \<noteq> 24 \<or> b = 3)) r of
                    (m, d) \<Rightarrow> (400 * a + 100 * b + 4 * c + e + 1, m, d)))"
    and "q = 146097 * a + 36524 * b + 1461 * c + 365 * e + r"
    and "0 \<le> b" "b \<le> 4" "0 \<le> c" "c \<le> 24" "0 \<le> e" "e \<le> 4" "0 \<le> r" "r < 365"
    and "b = 4 \<Longrightarrow> c = 0 \<and> e = 0 \<and> r = 0"
    and "c = 24 \<Longrightarrow> e \<le> 3"
    and "e = 4 \<Longrightarrow> r = 0"
proof -
  show "ord2ymd n =
           (if e = 4 \<or> b = 4 then (400 * a + 100 * b + 4 * c + e, 12, 31)
            else (case month_and_day (e = 3 \<and> (c \<noteq> 24 \<or> b = 3)) r of
                    (m, d) \<Rightarrow> (400 * a + 100 * b + 4 * c + e + 1, m, d)))"
    unfolding ord2ymd_def assms Let_def by (simp add: algebra_simps split: prod.split)
  have q1: "q = 146097 * a + r1" "0 \<le> r1" "r1 < 146097" unfolding a_def r1_def by simp_all
  have q2: "r1 = 36524 * b + r2" "0 \<le> r2" "r2 < 36524" unfolding b_def r2_def by simp_all
  have q3: "r2 = 1461 * c + r3" "0 \<le> r3" "r3 < 1461" unfolding c_def r3_def by simp_all
  have q4: "r3 = 365 * e + r" "0 \<le> r" "r < 365" unfolding e_def r_def by simp_all
  show "q = 146097 * a + 36524 * b + 1461 * c + 365 * e + r" using q1 q2 q3 q4 by linarith
  show b: "0 \<le> b" "b \<le> 4" using q1 q2 by linarith+
  show c: "0 \<le> c" "c \<le> 24" using q2 q3 by linarith+
  show e: "0 \<le> e" "e \<le> 4" using q3 q4 by linarith+
  show "0 \<le> r" "r < 365" using q4 by simp_all
  show "b = 4 \<Longrightarrow> c = 0 \<and> e = 0 \<and> r = 0"
  proof -
    assume "b = 4"
    with q1 q2 have "r2 = 0" by linarith
    with q3 c have c0: "c = 0" and "r3 = 0" by linarith+
    with q4 e have "e = 0" "r = 0" by linarith+
    with c0 show ?thesis by simp
  qed
  show "c = 24 \<Longrightarrow> e \<le> 3" using q2 q3 q4 by linarith
  show "e = 4 \<Longrightarrow> r = 0" using q3 q4 by linarith
qed

lemma ord2ymd_ordinal:
  assumes "1 \<le> n" "ord2ymd n = (y, m, d)"
  shows "ymd2ord y m d = n \<and> 1 \<le> y \<and> 1 \<le> m \<and> m \<le> 12 \<and> 1 \<le> d \<and> d \<le> days_in_month y m"
proof -
  define q where "q = n - 1"
  define a where "a = q div 146097"
  define r1 where "r1 = q mod 146097"
  define b where "b = r1 div 36524"
  define r2 where "r2 = r1 mod 36524"
  define c where "c = r2 div 1461"
  define r3 where "r3 = r2 mod 1461"
  define e where "e = r3 div 365"
  define r where "r = r3 mod 365"
  note cyc = ord2ymd_cycles [of n, folded q_def, folded a_def r1_def, folded b_def r2_def,
      folded c_def r3_def, folded e_def r_def]
  have a: "0 \<le> a" unfolding a_def q_def using assms(1) by simp
  show ?thesis
  proof (cases "b = 4")
    case True
    with cyc have "c = 0" "e = 0" "r = 0" by simp_all
    with True cyc(1) assms(2) have y: "y = 400 * a + 400" and md: "m = 12" "d = 31" by simp_all
    have "days_before_year y = 146097 * a + 145731"
      using dby_cycle [of 3 24 3 a] y by (simp add: ac_simps)
    moreover have "is_leap y"
      using leap_cycle [of 3 24 3 a] y by (simp add: ac_simps)
    moreover have "n = 146097 * a + 146097"
      using cyc(2) \<open>c = 0\<close> \<open>e = 0\<close> \<open>r = 0\<close> True q_def by simp
    ultimately show ?thesis using y a md
      by (simp add: ymd2ord_def days_before_month_def days_in_month_def)
  next
    case b4: False
    show ?thesis
    proof (cases "e = 4")
      case True
      with cyc have "r = 0" "c \<le> 23" by (auto simp: not_le intro: ccontr)
      with True b4 cyc(1) assms(2) have y: "y = 400 * a + 100 * b + 4 * c + 4" and md: "m = 12" "d = 31"
        by simp_all
      have "days_before_year y = 146097 * a + 36524 * b + 1461 * c + 365 * 3"
        using cyc b4 \<open>c \<le> 23\<close> dby_cycle [of b c 3 a] y by (simp add: ac_simps)
      moreover have "is_leap y"
        using cyc b4 \<open>c \<le> 23\<close> leap_cycle [of b c 3 a] y by (simp add: ac_simps)
      moreover have "n = 146097 * a + 36524 * b + 1461 * c + 1461"
        using cyc(2) \<open>r = 0\<close> True q_def by simp
      moreover have "1 \<le> y" using y a cyc(3,5) by simp
      ultimately show ?thesis using md
        by (simp add: ymd2ord_def days_before_month_def days_in_month_def)
    next
      case e4: False
      have bnd: "0 \<le> b" "b \<le> 3" "0 \<le> c" "c \<le> 24" "0 \<le> e" "e \<le> 3"
        using cyc b4 e4 by simp_all
      let ?Y = "400 * a + 100 * b + 4 * c + e + 1"
      have leap: "is_leap ?Y \<longleftrightarrow> (e = 3 \<and> (c \<noteq> 24 \<or> b = 3))"
        using bnd by (rule leap_cycle)
      obtain m' d' where md: "month_and_day (is_leap ?Y) r = (m', d')"
        by fastforce
      with cyc(1) b4 e4 leap assms(2) have ymd: "y = ?Y" "m = m'" "d = d'" by simp_all
      have ok: "1 \<le> m' \<and> m' \<le> 12 \<and> 1 \<le> d' \<and> d' \<le> days_in_month ?Y m'
           \<and> days_before_month ?Y m' + d' = r + 1"
        using cyc md by (intro month_and_day_ok) simp_all
      have "days_before_year ?Y = 146097 * a + 36524 * b + 1461 * c + 365 * e"
        using bnd by (rule dby_cycle)
      with ok ymd a bnd cyc(2) q_def show ?thesis by (simp add: ymd2ord_def)
    qed
  qed
qed

section \<open>Lemmas: ordinals of valid dates\<close>

lemma month_cases_12:
  "1 \<le> (m::int) \<Longrightarrow> m \<le> 12 \<Longrightarrow>
   m = 1 \<or> m = 2 \<or> m = 3 \<or> m = 4 \<or> m = 5 \<or> m = 6 \<or> m = 7 \<or> m = 8 \<or> m = 9 \<or> m = 10 \<or> m = 11 \<or> m = 12"
  by presburger

lemma days_before_month_succ:
  "1 \<le> m \<Longrightarrow> m \<le> 11 \<Longrightarrow> days_before_month y (m + 1) = days_before_month y m + days_in_month y m"
  using month_cases_12 [of m] by (auto simp: days_before_month_def days_in_month_def)

lemma days_before_month_Dec:
  "days_before_month y 12 + days_in_month y 12 = 365 + (if is_leap y then 1 else 0)"
  by (simp add: days_before_month_def days_in_month_def)

lemma days_in_month_pos: "1 \<le> m \<Longrightarrow> m \<le> 12 \<Longrightarrow> 28 \<le> days_in_month y m"
  using month_cases_12 [of m] by (auto simp: days_in_month_def)

lemma days_before_month_nonneg: "1 \<le> m \<Longrightarrow> m \<le> 12 \<Longrightarrow> 0 \<le> days_before_month y m"
  using month_cases_12 [of m] by (auto simp: days_before_month_def)

lemma days_before_month_mono:
  assumes "1 \<le> m1" "m1 < m2" "m2 \<le> 12"
  shows "days_before_month y m1 + days_in_month y m1 \<le> days_before_month y m2"
  using assms(2,3)
proof (induction m2 rule: int_gr_induct)
  case base
  then show ?case using assms(1) by (simp add: days_before_month_succ)
next
  case (step i)
  then have "days_before_month y (i + 1) = days_before_month y i + days_in_month y i"
    using assms(1) by (intro days_before_month_succ) simp_all
  moreover have "28 \<le> days_in_month y i" using step assms(1) by (intro days_in_month_pos) simp_all
  ultimately show ?case using step by simp
qed

lemma days_before_year_mono:
  assumes "a \<le> b" shows "days_before_year a \<le> days_before_year b"
  using assms
proof (induction b rule: int_ge_induct)
  case base
  then show ?case by simp
next
  case (step i)
  then show ?case using days_before_year_succ [of i] by simp
qed

lemma day_of_year_bounds:
  assumes "1 \<le> m" "m \<le> 12" "1 \<le> d" "d \<le> days_in_month y m"
  shows "1 \<le> days_before_month y m + d"
    and "days_before_month y m + d \<le> 365 + (if is_leap y then 1 else 0)"
proof -
  show "1 \<le> days_before_month y m + d" using days_before_month_nonneg [OF assms(1,2), of y] assms(3) by simp
  show "days_before_month y m + d \<le> 365 + (if is_leap y then 1 else 0)"
  proof (cases "m = 12")
    case True
    then show ?thesis using assms(4) days_before_month_Dec [of y] by simp
  next
    case False
    then have "days_before_month y m + days_in_month y m \<le> days_before_month y 12"
      using assms by (intro days_before_month_mono) simp_all
    then show ?thesis using assms(4) days_before_month_Dec [of y] days_in_month_pos [of 12 y] by simp
  qed
qed

lemma toordinal_bounds:
  assumes "valid_date dt"
  shows "days_before_year (year dt) < toordinal dt"
    and "toordinal dt \<le> days_before_year (year dt + 1)"
  using day_of_year_bounds [of "month dt" "day dt" "year dt"] assms days_before_year_succ [of "year dt"]
  by (auto simp: valid_date_def toordinal_def ymd2ord_def)

lemma date_less_iff:
  "a < b \<longleftrightarrow> year a < year b \<or> (year a = year b \<and> month a < month b)
     \<or> (year a = year b \<and> month a = month b \<and> day a < day b)"
  unfolding less_date_def date_tuple_def by (auto simp: less_le)

lemma toordinal_less:
  assumes "valid_date a" "valid_date b" "a < b"
  shows "toordinal a < toordinal b"
proof -
  consider (y) "year a < year b"
    | (m) "year a = year b" "month a < month b"
    | (d) "year a = year b" "month a = month b" "day a < day b"
    using assms(3) unfolding date_less_iff by blast
  then show ?thesis
  proof cases
    case y
    then have "days_before_year (year a + 1) \<le> days_before_year (year b)"
      by (intro days_before_year_mono) simp
    then show ?thesis using toordinal_bounds [OF assms(1)] toordinal_bounds [OF assms(2)] by simp
  next
    case m
    then have "days_before_month (year a) (month a) + days_in_month (year a) (month a)
        \<le> days_before_month (year a) (month b)"
      using assms(1,2) by (intro days_before_month_mono) (simp_all add: valid_date_def)
    then show ?thesis using m assms(1,2) by (simp add: toordinal_def ymd2ord_def valid_date_def)
  next
    case d
    then show ?thesis by (simp add: toordinal_def ymd2ord_def)
  qed
qed

lemma toordinal_inj:
  assumes "valid_date a" "valid_date b" "toordinal a = toordinal b"
  shows "a = b"
  using toordinal_less [OF assms(1,2)] toordinal_less [OF assms(2,1)] assms(3)
  by (metis less_irrefl neqE)

lemma toordinal_less_iff:
  "valid_date a \<Longrightarrow> valid_date b \<Longrightarrow> toordinal a < toordinal b \<longleftrightarrow> a < b"
  by (metis toordinal_less less_asym neqE)

lemma days_before_year_10000: "days_before_year 10000 = MAXORDINAL"
  by (simp add: days_before_year_def)

lemma toordinal_range:
  assumes "valid_date dt"
  shows "1 \<le> toordinal dt" "toordinal dt \<le> MAXORDINAL"
proof -
  have "days_before_year 1 \<le> days_before_year (year dt)"
    using assms by (intro days_before_year_mono) (simp add: valid_date_def)
  then show "1 \<le> toordinal dt"
    using toordinal_bounds(1) [OF assms] by (simp add: days_before_year_def)
  have "days_before_year (year dt + 1) \<le> days_before_year 10000"
    using assms by (intro days_before_year_mono) (simp add: valid_date_def)
  then show "toordinal dt \<le> MAXORDINAL"
    using toordinal_bounds(2) [OF assms] days_before_year_10000 by simp
qed

lemma check_date_fields_eq:
  "check_date_fields y m d = (if valid_date (Date y m d) then Inr (Date y m d) else Inl ValueError)"
  by (simp add: check_date_fields_def valid_date_def)

lemma ord2ymd_valid:
  assumes "1 \<le> n" "n \<le> MAXORDINAL" "ord2ymd n = (y, m, d)"
  shows "valid_date (Date y m d) \<and> toordinal (Date y m d) = n"
proof -
  note ok = ord2ymd_ordinal [OF assms(1,3)]
  have "y \<le> 9999"
  proof (rule ccontr)
    assume "\<not> y \<le> 9999"
    then have "days_before_year 10000 \<le> days_before_year y" by (intro days_before_year_mono) simp
    moreover have "days_before_year y < n"
      using ok day_of_year_bounds(1) [of m d y] by (simp add: ymd2ord_def)
    ultimately show False using assms(2) days_before_year_10000 by simp
  qed
  with ok show ?thesis by (simp add: valid_date_def toordinal_def)
qed

lemma fromordinal_ok:
  assumes "1 \<le> n" "n \<le> MAXORDINAL"
  shows "\<exists>dt. fromordinal n = Inr dt \<and> valid_date dt \<and> toordinal dt = n"
proof -
  obtain y m d where e: "ord2ymd n = (y, m, d)" by (cases "ord2ymd n") auto
  with ord2ymd_valid [OF assms e] show ?thesis
    by (simp add: fromordinal_def check_date_fields_eq)
qed

lemma fromordinal_toordinal:
  assumes "valid_date dt" shows "fromordinal (toordinal dt) = Inr dt"
proof -
  obtain dt' where "fromordinal (toordinal dt) = Inr dt'" "valid_date dt'" "toordinal dt' = toordinal dt"
    using fromordinal_ok toordinal_range [OF assms] by blast
  with toordinal_inj [OF _ assms] show ?thesis by simp
qed

section \<open>Lemmas: \<^verbatim>\<open>date + timedelta\<close>\<close>

lemma date_add_Inr:
  "date_add dt k = Inr dt' \<Longrightarrow> valid_date dt' \<and> toordinal dt' = toordinal dt + k"
  using fromordinal_ok [of "toordinal dt + k"]
  by (auto simp: date_add_def Let_def split: if_splits)

lemma date_add_ok:
  assumes "0 < toordinal dt + k" "toordinal dt + k \<le> MAXORDINAL"
  shows "\<exists>dt'. date_add dt k = Inr dt' \<and> valid_date dt' \<and> toordinal dt' = toordinal dt + k"
  using assms fromordinal_ok [of "toordinal dt + k"] by (simp add: date_add_def Let_def)

lemma date_add_overflow:
  "\<not> (0 < toordinal dt + k \<and> toordinal dt + k \<le> MAXORDINAL) \<Longrightarrow> date_add dt k = Inl OverflowError"
  unfolding date_add_def Let_def by (simp only: if_False)

lemma date_add_zero: "valid_date dt \<Longrightarrow> date_add dt 0 = Inr dt"
  using toordinal_range [of dt] fromordinal_toordinal [of dt] by (simp add: date_add_def)

lemma date_add_add:
  "date_add dt k = Inr dt' \<Longrightarrow> date_add dt' j = date_add dt (k + j)"
  using date_add_Inr [of dt k dt'] by (simp add: date_add_def add.assoc)

lemma date_add_less:
  assumes "date_add dt i = Inr a" "date_add dt j = Inr b" "i < j"
  shows "a < b"
  using date_add_Inr [OF assms(1)] date_add_Inr [OF assms(2)] assms(3) toordinal_less_iff [of a b]
  by simp

section \<open>Properties of the calendar\<close>

text \<open>
  Ordinals and dates are in bijection: a valid date has an ordinal in
  [1, 3652059] from which fromordinal gives it back, and every ordinal of that range
  is the ordinal of a valid date that fromordinal returns.
\<close>

lemma ordinal_roundtrip:
  "(valid_date dt \<longrightarrow> fromordinal (toordinal dt) = Inr dt \<and> 1 \<le> toordinal dt \<and> toordinal dt \<le> MAXORDINAL)
   \<and> (1 \<le> n \<and> n \<le> MAXORDINAL \<longrightarrow> (\<exists>dt'. fromordinal n = Inr dt' \<and> valid_date dt' \<and> toordinal dt' = n))"
  using fromordinal_toordinal toordinal_range fromordinal_ok by blast

text \<open>
  date + timedelta composes: adding k days and then j days is adding k + j days
  (with the same OverflowError when the result leaves the calendar), and the result
  of adding k days lies after the start exactly when k is positive.
\<close>

lemma date_add_compose:
  assumes "date_add dt k = Inr dt'" "valid_date dt"
  shows "date_add dt' j = date_add dt (k + j) \<and> (dt < dt' \<longleftrightarrow> 0 < k)"
proof -
  have "valid_date dt'" "toordinal dt' = toordinal dt + k" using date_add_Inr [OF assms(1)] by simp_all
  with toordinal_less_iff [OF assms(2), of dt'] have "dt < dt' \<longleftrightarrow> 0 < k" by simp
  with date_add_add [OF assms(1)] show ?thesis by simp
qed

end
