(* ===== verification/Auth.thy ===== *)
theory Auth
  imports Prelude
begin

text \<open>
  The authentication gate both handlers of \<^verbatim>\<open>src/routers/study_router.py\<close> run
  first. FastAPI's \<^verbatim>\<open>HTTPBearer()\<close> dependency (\<^verbatim>\<open>bearer_scheme\<close>, line 13)
  turns the \<^verbatim>\<open>Authorization\<close> header into \<^verbatim>\<open>HTTPAuthorizationCredentials\<close>
  or raises 403 before the handler runs; the handler then calls
  \<^verbatim>\<open>verify_token\<close> (from \<^verbatim>\<open>utils/security\<close>, not part of the sources) and reads
  the \<^verbatim>\<open>sub\<close> claim (lines 24--27 and 49--52). \<^verbatim>\<open>verify_token\<close> is an
  interface: a parameter of type \<open>verifier\<close>, any function from the token to a
  payload or an exception; every lemma holds for every verifier.
\<close>

record http_credentials =
  scheme :: string
  credentials :: string

type_synonym verifier = "string \<Rightarrow> payload result"

text \<open>\<^verbatim>\<open>str.partition(" ")\<close>, keeping the parts before and after the first space.\<close>

definition str_partition_space :: "string \<Rightarrow> string \<times> string" where
  "str_partition_space s =
     (takeWhile (\<lambda>c. c \<noteq> CHR '' '') s, drop 1 (dropWhile (\<lambda>c. c \<noteq> CHR '' '') s))"

text \<open>FastAPI's \<^verbatim>\<open>get_authorization_scheme_param\<close>.\<close>

definition get_authorization_scheme_param :: "string option \<Rightarrow> string \<times> string" where
  "get_authorization_scheme_param v =
     (case v of None \<Rightarrow> ([], []) | Some s \<Rightarrow> if s = [] then ([], []) else str_partition_space s)"

text \<open>\<^verbatim>\<open>str.lower()\<close> on ASCII letters.\<close>

definition ascii_lower :: "string \<Rightarrow> string" where
  "ascii_lower s =
     map (\<lambda>c. if (65::nat) \<le> of_char c \<and> of_char c \<le> (90::nat) then char_of (of_char c + (32::nat)) else c) s"

text \<open>
  \<^verbatim>\<open>HTTPBearer.__call__\<close> with \<^verbatim>\<open>auto_error=True\<close>: a missing or malformed header
  and a scheme other than \<^verbatim>\<open>Bearer\<close> (case-insensitively) are refused with 403,
  as FastAPI's \<^verbatim>\<open>fastapi/security/http.py\<close> does in the releases that answer 403.
\<close>

definition http_bearer :: "string option \<Rightarrow> http_credentials result" where
  "http_bearer authorization =
     (case get_authorization_scheme_param authorization of (sch, cred) \<Rightarrow>
        if \<not> (authorization \<noteq> None \<and> authorization \<noteq> Some [] \<and> sch \<noteq> [] \<and> cred \<noteq> [])
        then Inl (HTTPException 403 ''Not authenticated'')
        else if ascii_lower sch \<noteq> ''bearer''
        then Inl (HTTPException 403 ''Invalid authentication credentials'')
        else Inr \<lparr>scheme = sch, credentials = cred\<rparr>)"

text \<open>
  Lines 24--27 (and 49--52): \<^verbatim>\<open>payload = verify_token(credentials.credentials)\<close>
  lets the verifier's exception propagate; \<^verbatim>\<open>payload.get("sub")\<close> being
  \<^verbatim>\<open>None\<close> is refused with 401. Any other value, an empty string included, is the
  user id.
\<close>

definition authenticate :: "verifier \<Rightarrow> http_credentials \<Rightarrow> jval result" where
  "authenticate verify_token cr =
     bind_exc (verify_token (credentials cr)) (\<lambda>payload.
       let user_id = dict_get payload ''sub''
       in if user_id = JNull then Inl (HTTPException 401 ''Invalid token'') else Inr user_id)"

lemma authenticate_Inr:
  "authenticate verify_token cr = Inr uid \<longleftrightarrow>
     (\<exists>p. verify_token (credentials cr) = Inr p \<and> dict_get p ''sub'' = uid \<and> uid \<noteq> JNull)"
  by (cases "verify_token (credentials cr)") (auto simp: authenticate_def Let_def)

lemma authenticate_verifier_error:
  "verify_token (credentials cr) = Inl e \<Longrightarrow> authenticate verify_token cr = Inl e"
  by (simp add: authenticate_def)

lemma authenticate_no_sub:
  "verify_token (credentials cr) = Inr p \<Longrightarrow> dict_get p ''sub'' = JNull \<Longrightarrow>
   authenticate verify_token cr = Inl (HTTPException 401 ''Invalid token'')"
  by (simp add: authenticate_def)

lemma http_bearer_Inr:
  "http_bearer h = Inr cr \<Longrightarrow> credentials cr \<noteq> [] \<and> ascii_lower (scheme cr) = ''bearer''"
  by (auto simp: http_bearer_def split: prod.splits if_splits)

end
