(* ===== verification/Store.thy ===== *)
theory Store
  imports Calendar
begin

text \<open>
  The \<^verbatim>\<open>StudyLog\<close> table (\<^verbatim>\<open>db/models.py\<close>, not part of the sources; its
  columns are those the router reads and writes) and the two queries the router
  issues through SQLAlchemy. The table is the list of its rows in scan order:
  \<^verbatim>\<open>.first()\<close> without \<^verbatim>\<open>ORDER BY\<close> is taken to return the first matching row
  of the scan and \<^verbatim>\<open>.all()\<close> the matching rows in scan order. Nothing in the
  table keeps two rows from sharing a \<^verbatim>\<open>(user_id, date)\<close> pair; the spec's
  uniqueness (section 3) is the invariant \<open>unique_logs\<close>, and \<open>abs_table\<close> reads a
  table as the map from that pair to the minutes it promises.
\<close>

record study_log =
  user_id :: jval
  date :: date
  minutes :: int

type_synonym table = "study_log list"

text \<open>Line 30: \<^verbatim>\<open>db.query(StudyLog).filter(user_id == .., date == today).first()\<close>.\<close>

definition find_today_log :: "table \<Rightarrow> jval \<Rightarrow> date \<Rightarrow> nat option" where
  "find_today_log db uid today = first_index (\<lambda>l. user_id l = uid \<and> date l = today) db"

text \<open>Lines 66--70: the rows of the user with \<^verbatim>\<open>start_date <= date <= end_date\<close>.\<close>

definition query_week_logs :: "table \<Rightarrow> jval \<Rightarrow> date \<Rightarrow> date \<Rightarrow> table" where
  "query_week_logs db uid start_date end_date =
     filter (\<lambda>l. user_id l = uid \<and> date l \<ge> start_date \<and> date l \<le> end_date) db"

definition log_key :: "study_log \<Rightarrow> jval \<times> date" where
  "log_key l = (user_id l, date l)"

definition unique_logs :: "table \<Rightarrow> bool" where
  "unique_logs db \<longleftrightarrow> distinct (map log_key db)"

definition abs_table :: "table \<Rightarrow> (jval \<times> date) \<rightharpoonup> int" where
  "abs_table db = map_of (map (\<lambda>l. (log_key l, minutes l)) db)"

text \<open>A \<^verbatim>\<open>Date\<close> column only holds real dates.\<close>

definition valid_rows :: "table \<Rightarrow> bool" where
  "valid_rows db \<longleftrightarrow> (\<forall>l \<in> set db. valid_date (date l))"

text \<open>The spec's data model: minutes are non-negative (not checked by the code).\<close>

definition nonneg_minutes :: "table \<Rightarrow> bool" where
  "nonneg_minutes db \<longleftrightarrow> (\<forall>l \<in> set db. 0 \<le> minutes l)"

lemma find_today_log_Some:
  "find_today_log db uid today = Some i \<Longrightarrow>
   i < length db \<and> user_id (db ! i) = uid \<and> date (db ! i) = today"
  unfolding find_today_log_def by (drule first_index_Some) simp

lemma find_today_log_None:
  "find_today_log db uid today = None \<longleftrightarrow> (uid, today) \<notin> set (map log_key db)"
  unfolding find_today_log_def first_index_None log_key_def by auto

lemma abs_table_None:
  "abs_table db k = None \<longleftrightarrow> k \<notin> set (map log_key db)"
  unfolding abs_table_def by (simp add: map_of_eq_None_iff image_image)

lemma abs_table_nth:
  "unique_logs db \<Longrightarrow> i < length db \<Longrightarrow> abs_table db (log_key (db ! i)) = Some (minutes (db ! i))"
  unfolding abs_table_def unique_logs_def
  by (rule map_of_is_SomeI) (auto simp: comp_def in_set_conv_nth map_fst_zip_take intro!: exI [of _ i])

end
