(* ===== verification/Strptime.thy ===== *)
theory Strptime
  imports Calendar "HOL-Library.Char_ord"
begin

text \<open>
  \<^verbatim>\<open>datetime.strptime(week_start, "%Y-%m-%d").date()\<close> (line 56), after CPython's
  \<^verbatim>\<open>Lib/_strptime.py\<close>: the format is compiled to a regular expression with one
  named group per directive, matched with \<^verbatim>\<open>re.match\<close> (anchored at the start,
  not at the end), refused when unconverted text remains, and the groups are
  converted with \<^verbatim>\<open>int\<close> and validated by the \<^verbatim>\<open>date\<close> constructor. Every
  failure is a \<^verbatim>\<open>ValueError\<close>.

  The regular expressions are a small backtracking matcher: \<open>rx_match r s\<close> lists
  every way \<open>r\<close> can match a prefix of \<open>s\<close>, each with the groups it captured and the
  rest of \<open>s\<close>, in the order Python's engine tries them (alternatives left to
  right, sequences depth first); \<^verbatim>\<open>re.match\<close> takes the first. Characters are
  bytes: \<^verbatim>\<open>\d\<close> is the ASCII digits here, while Python's \<^verbatim>\<open>\d\<close> also matches
  other Unicode decimal digits.
\<close>

datatype rx = RChar char | RRange char char | RSeq "rx list" | RAlt "rx list" | RGroup string rx

abbreviation RDigit :: rx where
  "RDigit \<equiv> RRange (CHR ''0'') (CHR ''9'')"

type_synonym rx_results = "((string \<times> string) list \<times> string) list"

fun rx_match :: "rx \<Rightarrow> string \<Rightarrow> rx_results"
  and rx_seq :: "rx list \<Rightarrow> string \<Rightarrow> rx_results"
  and rx_alt :: "rx list \<Rightarrow> string \<Rightarrow> rx_results" where
  "rx_match (RChar c) s = (case s of x # xs \<Rightarrow> if x = c then [([], xs)] else [] | [] \<Rightarrow> [])"
| "rx_match (RRange lo hi) s =
     (case s of x # xs \<Rightarrow> if lo \<le> x \<and> x \<le> hi then [([], xs)] else [] | [] \<Rightarrow> [])"
| "rx_match (RSeq rs) s = rx_seq rs s"
| "rx_match (RAlt rs) s = rx_alt rs s"
| "rx_match (RGroup g r) s =
     map (\<lambda>(cs, rest). ((g, take (length s - length rest) s) # cs, rest)) (rx_match r s)"
| "rx_seq [] s = [([], s)]"
| "rx_seq (r # rs) s =
     concat (map (\<lambda>(cs, rest). map (\<lambda>(cs', rest'). (cs @ cs', rest')) (rx_seq rs rest)) (rx_match r s))"
| "rx_alt [] s = []"
| "rx_alt (r # rs) s = rx_match r s @ rx_alt rs s"

text \<open>\<^verbatim>\<open>re.match\<close>: the first match, if any.\<close>

definition re_match :: "rx \<Rightarrow> string \<Rightarrow> ((string \<times> string) list \<times> string) option" where
  "re_match r s = (case rx_match r s of [] \<Rightarrow> None | m # _ \<Rightarrow> Some m)"

text \<open>
  \<^verbatim>\<open>TimeRE().pattern("%Y-%m-%d")\<close>: the directives \<^verbatim>\<open>%Y\<close>, \<^verbatim>\<open>%m\<close>,
  \<^verbatim>\<open>%d\<close> are \<^verbatim>\<open>(?P<Y>\d\d\d\d)\<close>, \<^verbatim>\<open>(?P<m>1[0-2]|0[1-9]|[1-9])\<close> and
  \<^verbatim>\<open>(?P<d>3[01]|[12]\d|0[1-9]|[1-9]| [1-9])\<close>; the dashes are literal.
\<close>

abbreviation Y_group :: rx where
  "Y_group \<equiv> RGroup ''Y'' (RSeq [RDigit, RDigit, RDigit, RDigit])"

abbreviation m_group :: rx where
  "m_group \<equiv> RGroup ''m'' (RAlt [RSeq [RChar (CHR ''1''), RRange (CHR ''0'') (CHR ''2'')],
                                 RSeq [RChar (CHR ''0''), RRange (CHR ''1'') (CHR ''9'')],
                                 RRange (CHR ''1'') (CHR ''9'')])"

abbreviation d_group :: rx where
  "d_group \<equiv> RGroup ''d'' (RAlt [RSeq [RChar (CHR ''3''), RRange (CHR ''0'') (CHR ''1'')],
                                 RSeq [RRange (CHR ''1'') (CHR ''2''), RDigit],
                                 RSeq [RChar (CHR ''0''), RRange (CHR ''1'') (CHR ''9'')],
                                 RRange (CHR ''1'') (CHR ''9''),
                                 RSeq [RChar (CHR '' ''), RRange (CHR ''1'') (CHR ''9'')]])"

definition strptime_pattern :: rx where
  "strptime_pattern = RSeq [Y_group, RChar (CHR ''-''), m_group, RChar (CHR ''-''), d_group]"

definition group_text :: "(string \<times> string) list \<Rightarrow> string \<Rightarrow> string" where
  "group_text groups g = (case map_of groups g of None \<Rightarrow> [] | Some t \<Rightarrow> t)"

text \<open>
  \<^verbatim>\<open>int(text)\<close> on what the groups can capture: ASCII digits, possibly after
  a space (the \<^verbatim>\<open>" [1-9]"\<close> alternative of \<^verbatim>\<open>%d\<close>), which \<^verbatim>\<open>int\<close> strips.
\<close>

definition digit_value :: "char \<Rightarrow> int" where
  "digit_value c = int (of_char c) - 48"

definition py_int :: "string \<Rightarrow> int" where
  "py_int s = foldl (\<lambda>acc c. 10 * acc + digit_value c) 0 (dropWhile (\<lambda>c. c = CHR '' '') s)"

definition strptime_date :: "string \<Rightarrow> date result" where
  "strptime_date data_string =
     (case re_match strptime_pattern data_string of
        None \<Rightarrow> Inl ValueError
      | Some (groups, rest) \<Rightarrow>
          if rest \<noteq> [] then Inl ValueError
          else check_date_fields (py_int (group_text groups ''Y''))
                 (py_int (group_text groups ''m'')) (py_int (group_text groups ''d'')))"

text \<open>The four characters \<^verbatim>\<open>%04d\<close> prints for a year below 10000.\<close>

definition four_digits :: "nat \<Rightarrow> string" where
  "four_digits n = map char_of_digit [n div 1000, n div 100 mod 10, n div 10 mod 10, n mod 10]"

section \<open>Lemmas: printing dates\<close>

lemma digits_of_nat_small: "n < 10 \<Longrightarrow> digits_of_nat n = [char_of_digit n]"
  by (simp add: digits_of_nat.simps)

lemma digits_of_nat_step:
  "10 \<le> n \<Longrightarrow> digits_of_nat n = digits_of_nat (n div 10) @ [char_of_digit (n mod 10)]"
  by (subst digits_of_nat.simps) simp

lemma fmt_0d_4:
  assumes "1 \<le> y" "y \<le> 9999"
  shows "fmt_0d 4 y = four_digits (nat y)"
proof -
  let ?n = "nat y"
  have n: "?n < 10000" using assms by simp
  consider "?n < 10" | "10 \<le> ?n" "?n < 100" | "100 \<le> ?n" "?n < 1000" | "1000 \<le> ?n" by linarith
  then have "zpad 4 (digits_of_nat ?n) = four_digits ?n"
  proof cases
    case 1
    then show ?thesis by (simp add: zpad_def four_digits_def digits_of_nat_small char_of_digit_def numeral_3_eq_3)
  next
    case 2
    then show ?thesis
      by (simp add: zpad_def four_digits_def digits_of_nat_small digits_of_nat_step char_of_digit_def numeral_2_eq_2)
  next
    case 3
    then have "10 \<le> ?n div 10" "?n div 10 < 100" "?n div 100 < 10" by simp_all
    with 3 show ?thesis
      by (simp add: zpad_def four_digits_def digits_of_nat_small digits_of_nat_step char_of_digit_def div_mult2_eq [symmetric])
  next
    case 4
    then have "100 \<le> ?n div 10" "10 \<le> ?n div 100" "?n div 1000 < 10" using n by simp_all
    with 4 show ?thesis
      by (simp add: zpad_def four_digits_def digits_of_nat_step digits_of_nat_small char_of_digit_def div_mult2_eq [symmetric])
  qed
  then show ?thesis using assms by (simp add: fmt_0d_def)
qed

section \<open>Lemmas: the groups of the pattern\<close>

lemma nat_less_10_cases:
  "(k::nat) < 10 \<Longrightarrow> k = 0 \<or> k = 1 \<or> k = 2 \<or> k = 3 \<or> k = 4 \<or> k = 5 \<or> k = 6 \<or> k = 7 \<or> k = 8 \<or> k = 9"
  by presburger

lemma char_of_digit_props:
  assumes "k < 10"
  shows "CHR ''0'' \<le> char_of_digit k \<and> char_of_digit k \<le> CHR ''9'' \<and> char_of_digit k \<noteq> CHR '' ''
         \<and> digit_value (char_of_digit k) = int k"
  using nat_less_10_cases [OF assms]
  by (auto simp: char_of_digit_def digit_value_def less_eq_char_def)

lemma rx_seq_single:
  "rx_match p s = [(cs, r)] \<Longrightarrow> rx_seq (p # ps) s = map (\<lambda>(cs', r'). (cs @ cs', r')) (rx_seq ps r)"
  by (simp add: case_prod_beta)

lemma rx_match_Y_group:
  assumes "n < 10000"
  shows "rx_match Y_group (four_digits n @ rest) = [([(''Y'', four_digits n)], rest)]"
proof -
  have "n div 1000 < 10" "n div 100 mod 10 < 10" "n div 10 mod 10 < 10" "n mod 10 < 10"
    using assms by simp_all
  then show ?thesis
    using char_of_digit_props [of "n div 1000"] char_of_digit_props [of "n div 100 mod 10"]
      char_of_digit_props [of "n div 10 mod 10"] char_of_digit_props [of "n mod 10"]
    by (simp add: four_digits_def)
qed

lemma py_int_four_digits:
  assumes "n < 10000"
  shows "py_int (four_digits n) = int n"
proof -
  have d: "n div 1000 < 10" "n div 100 mod 10 < 10" "n div 10 mod 10 < 10" "n mod 10 < 10"
    using assms by simp_all
  have e1: "n = 10 * (n div 10) + n mod 10" by simp
  have e2: "n div 10 = 10 * (n div 100) + n div 10 mod 10"
    using div_mult2_eq [of n 10 10] by simp
  have e3: "n div 100 = 10 * (n div 1000) + n div 100 mod 10"
    using div_mult2_eq [of n 100 10] by simp
  have "int n = 1000 * int (n div 1000) + 100 * int (n div 100 mod 10) + 10 * int (n div 10 mod 10)
      + int (n mod 10)"
    using e1 e2 e3 by linarith
  then show ?thesis
    using char_of_digit_props [OF d(1)] char_of_digit_props [OF d(2)]
      char_of_digit_props [OF d(3)] char_of_digit_props [OF d(4)]
    by (simp add: py_int_def four_digits_def)
qed

lemma day_cases_31:
  "1 \<le> (d::int) \<Longrightarrow> d \<le> 31 \<Longrightarrow> d \<in> set [1..31]"
  by simp

lemma py_int_fmt_0d_2:
  assumes "1 \<le> d" "d \<le> 31"
  shows "py_int (fmt_0d 2 d) = d"
proof -
  have "\<forall>d \<in> set [1..31]. py_int (fmt_0d 2 d) = d"
    by code_simp
  then show ?thesis using day_cases_31 [OF assms] by blast
qed

lemma rx_seq_m_group:
  assumes "1 \<le> m" "m \<le> 12"
  shows "rx_seq (m_group # RChar (CHR ''-'') # ps) (fmt_0d 2 m @ CHR ''-'' # rest) =
           map (\<lambda>(cs', r'). ((''m'', fmt_0d 2 m) # cs', r')) (rx_seq ps rest)"
proof -
  have "\<forall>m \<in> set [1..12]. rx_seq (m_group # RChar (CHR ''-'') # ps) (fmt_0d 2 m @ CHR ''-'' # rest) =
           map (\<lambda>(cs', r'). ((''m'', fmt_0d 2 m) # cs', r')) (rx_seq ps rest)"
    by (simp add: upto.simps fmt_0d_def zpad_def digits_of_nat_small digits_of_nat_step char_of_digit_def
        less_eq_char_def case_prod_beta)
  moreover have "m \<in> set [1..12]" using assms by simp
  ultimately show ?thesis by blast
qed

lemma rx_seq_d_group:
  assumes "1 \<le> d" "d \<le> 31"
  shows "hd (rx_seq [d_group] (fmt_0d 2 d)) = ([(''d'', fmt_0d 2 d)], []) \<and> rx_seq [d_group] (fmt_0d 2 d) \<noteq> []"
proof -
  have "\<forall>d \<in> set [1..31]. hd (rx_seq [d_group] (fmt_0d 2 d)) = ([(''d'', fmt_0d 2 d)], [])
          \<and> rx_seq [d_group] (fmt_0d 2 d) \<noteq> []"
    by code_simp
  moreover have "d \<in> set [1..31]" using assms by simp
  ultimately show ?thesis by blast
qed

section \<open>Lemmas: \<^verbatim>\<open>strptime\<close> inverts \<^verbatim>\<open>str\<close>\<close>

lemma days_in_month_le_31: "1 \<le> m \<Longrightarrow> m \<le> 12 \<Longrightarrow> days_in_month y m \<le> 31"
proof -
  assume "1 \<le> m" "m \<le> 12"
  then have "m \<in> set [1..12]" by simp
  moreover have "\<forall>m \<in> set [1..12]. days_in_month y m \<le> 31"
    by (simp add: upto.simps days_in_month_def)
  ultimately show ?thesis by blast
qed

lemma re_match_isoformat:
  assumes "valid_date dt"
  shows "re_match strptime_pattern (isoformat dt) =
           Some ([(''Y'', four_digits (nat (year dt))), (''m'', fmt_0d 2 (month dt)),
                  (''d'', fmt_0d 2 (day dt))], [])"
proof -
  let ?y = "year dt" and ?m = "month dt" and ?d = "day dt"
  have v: "1 \<le> ?y" "?y \<le> 9999" "1 \<le> ?m" "?m \<le> 12" "1 \<le> ?d" "?d \<le> 31"
    using assms days_in_month_le_31 [of ?m ?y] by (auto simp: valid_date_def)
  have iso: "isoformat dt = four_digits (nat ?y) @ CHR ''-'' # fmt_0d 2 ?m @ CHR ''-'' # fmt_0d 2 ?d"
    using fmt_0d_4 [OF v(1,2)] by (simp add: isoformat_def)
  have Y: "rx_match Y_group (isoformat dt) = [([(''Y'', four_digits (nat ?y))], CHR ''-'' # fmt_0d 2 ?m @ CHR ''-'' # fmt_0d 2 ?d)]"
    unfolding iso using v by (intro rx_match_Y_group) simp
  have dash: "rx_match (RChar (CHR ''-'')) (CHR ''-'' # fmt_0d 2 ?m @ CHR ''-'' # fmt_0d 2 ?d) =
      [([], fmt_0d 2 ?m @ CHR ''-'' # fmt_0d 2 ?d)]" by simp
  obtain D where D: "rx_seq [d_group] (fmt_0d 2 ?d) = D" by simp
  have "rx_match strptime_pattern (isoformat dt) =
          map (\<lambda>(cs', r'). ((''Y'', four_digits (nat ?y)) # (''m'', fmt_0d 2 ?m) # cs', r')) D"
    unfolding strptime_pattern_def rx_match.simps(3)
    by (simp only: rx_seq_single [OF Y] rx_seq_single [OF dash] rx_seq_m_group [OF v(3,4)] D map_map)
      (simp add: comp_def case_prod_beta)
  moreover from rx_seq_d_group [OF v(5,6)] have "hd D = ([(''d'', fmt_0d 2 ?d)], []) \<and> D \<noteq> []"
    unfolding D .
  ultimately show ?thesis
    by (cases D) (simp_all add: re_match_def)
qed

lemma strptime_isoformat:
  assumes "valid_date dt" shows "strptime_date (isoformat dt) = Inr dt"
proof -
  have v: "year dt < 10000" "1 \<le> year dt" "1 \<le> month dt" "month dt \<le> 31" "1 \<le> day dt" "day dt \<le> 31"
    using assms days_in_month_le_31 [of "month dt" "year dt"] by (auto simp: valid_date_def)
  then have "py_int (four_digits (nat (year dt))) = year dt"
    using py_int_four_digits [of "nat (year dt)"] by simp
  with re_match_isoformat [OF assms] py_int_fmt_0d_2 [OF v(3,4)] py_int_fmt_0d_2 [OF v(5,6)] assms
  show ?thesis
    by (cases dt) (simp add: strptime_date_def group_text_def check_date_fields_eq)
qed

lemma strptime_date_valid: "strptime_date s = Inr dt \<Longrightarrow> valid_date dt"
  by (auto simp: strptime_date_def check_date_fields_eq split: option.splits prod.splits if_splits)

lemma isoformat_inj:
  "valid_date a \<Longrightarrow> valid_date b \<Longrightarrow> isoformat a = isoformat b \<Longrightarrow> a = b"
  by (metis strptime_isoformat sum.inject(2))

lemma strptime_date_Nil: "strptime_date [] = Inl ValueError"
  by code_simp

lemma length_zpad: "length s \<le> w \<Longrightarrow> length (zpad w s) = w"
  by (simp add: zpad_def)

lemma length_digits_of_nat_2: "n < 100 \<Longrightarrow> length (digits_of_nat n) \<le> 2"
  by (cases "n < 10") (simp_all add: digits_of_nat_small digits_of_nat_step)

lemma length_fmt_0d_2: "0 \<le> i \<Longrightarrow> i < 100 \<Longrightarrow> length (fmt_0d 2 i) = 2"
  using length_digits_of_nat_2 [of "nat i"] by (simp add: fmt_0d_def length_zpad)

section \<open>Properties of parsing and printing dates\<close>

text \<open>
  Round trip of week_start: strptime with "%Y-%m-%d" parses the string that
  str(date) prints for a valid date back to that date, and str(date) tells valid
  dates apart.
\<close>

lemma strptime_isoformat_roundtrip:
  assumes "valid_date a" "valid_date b"
  shows "strptime_date (isoformat a) = Inr a \<and> (isoformat a = isoformat b \<longleftrightarrow> a = b)"
  using strptime_isoformat [OF assms(1)] isoformat_inj [OF assms] by blast

text \<open>
  str(date) of a valid date is always ten characters: a four-digit year and
  two-digit month and day, zero-padded.
\<close>

lemma isoformat_length:
  "valid_date dt \<Longrightarrow> length (isoformat dt) = 10"
proof -
  assume v: "valid_date dt"
  then have "1 \<le> day dt" "day dt \<le> 31" "1 \<le> month dt" "month dt \<le> 12"
    using days_in_month_le_31 [of "month dt" "year dt"] by (simp_all add: valid_date_def)
  moreover have "length (fmt_0d 4 (year dt)) = 4"
    using v fmt_0d_4 [of "year dt"] by (simp add: valid_date_def four_digits_def)
  ultimately show ?thesis by (simp add: isoformat_def length_fmt_0d_2)
qed

end
