(* ===== verification/Router.thy ===== *)
theory Router
  imports Auth Store Strptime
begin

text \<open>
  The two request handlers of \<^verbatim>\<open>src/routers/study_router.py\<close>. A handler takes
  what FastAPI hands it (the verified \<^verbatim>\<open>HTTPAuthorizationCredentials\<close>, the
  request body or query, the session) together with the verifier and the server's
  \<^verbatim>\<open>date.today()\<close>, and returns its response and the table after
  \<^verbatim>\<open>db.commit()\<close>, or the exception it raises. An exception leaves the table as
  it was: nothing was committed.

  After the definitions come the abstract vocabulary (\<open>stored_minutes\<close>,
  \<open>week_days\<close>, \<open>week_spec\<close>), the lemmas that POST refines a map update and GET
  the abstract week, and the properties of both handlers: refinement, the shape
  of the window, the error paths and the edge cases of \<^verbatim>\<open>week_start\<close>.
\<close>

section \<open>POST /api/study_logs\<close>

text \<open>\<^verbatim>\<open>StudyTimeRequest\<close> (lines 15--16) and the response dict of line 40.\<close>

record study_time_request =
  req_minutes :: int

record add_response =
  message :: string
  resp_date :: string
  resp_minutes :: int

text \<open>
  Lines 29--39: find today's row; add to its minutes in place, or add a new row;
  commit; \<^verbatim>\<open>db.refresh(log)\<close> reads the committed row back.
\<close>

definition upsert_log :: "table \<Rightarrow> jval \<Rightarrow> date \<Rightarrow> int \<Rightarrow> study_log \<times> table" where
  "upsert_log db uid today m =
     (case find_today_log db uid today of
        Some i \<Rightarrow> let log = (db ! i)\<lparr>minutes := minutes (db ! i) + m\<rparr> in (log, db[i := log])
      | None \<Rightarrow> let log = \<lparr>user_id = uid, date = today, minutes = m\<rparr> in (log, db @ [log]))"

definition add_study_time ::
  "verifier \<Rightarrow> date \<Rightarrow> study_time_request \<Rightarrow> http_credentials \<Rightarrow> table \<Rightarrow> (add_response \<times> table) result" where
  "add_study_time verify_token today req cr db =
     bind_exc (authenticate verify_token cr) (\<lambda>uid.
       case upsert_log db uid today (req_minutes req) of (log, db') \<Rightarrow>
         Inr (\<lparr>message = ''Study time added'', resp_date = isoformat today,
               resp_minutes = minutes log\<rparr>, db'))"

text \<open>
  Lines 18--23: the route. FastAPI resolves \<^verbatim>\<open>Security(bearer_scheme)\<close> before
  it calls the handler.
\<close>

definition post_study_logs ::
  "verifier \<Rightarrow> date \<Rightarrow> string option \<Rightarrow> study_time_request \<Rightarrow> table \<Rightarrow> (add_response \<times> table) result" where
  "post_study_logs verify_token today authorization req db =
     bind_exc (http_bearer authorization) (\<lambda>cr. add_study_time verify_token today req cr db)"

section \<open>GET /api/study_logs\<close>

text \<open>The response dict of line 83; \<open>resp_logs\<close> keeps the dict's insertion order.\<close>

record week_response =
  resp_week_start :: string
  resp_logs :: "(string \<times> int) list"
  resp_total :: int

text \<open>
  Lines 54--62: \<^verbatim>\<open>if week_start:\<close> is false for \<^verbatim>\<open>None\<close> and for the empty
  string; a \<^verbatim>\<open>ValueError\<close> of \<^verbatim>\<open>strptime\<close> becomes 400, anything else would
  propagate; without a start the window ends today (\<^verbatim>\<open>today - timedelta(days=6)\<close>).
\<close>

definition resolve_start_date :: "string option \<Rightarrow> date \<Rightarrow> date result" where
  "resolve_start_date week_start today =
     (case week_start of
        Some s \<Rightarrow>
          if s \<noteq> [] then
            (case strptime_date s of
               Inl ValueError \<Rightarrow> Inl (HTTPException 400 ''Invalid week_start format. Use YYYY-MM-DD.'')
             | Inl e \<Rightarrow> Inl e
             | Inr d \<Rightarrow> Inr d)
          else date_add today (- 6)
      | None \<Rightarrow> date_add today (- 6))"

text \<open>Lines 73--76: \<^verbatim>\<open>for i in range(7): result[str(start_date + timedelta(days=i))] = 0\<close>.\<close>

fun init_week :: "date \<Rightarrow> nat list \<Rightarrow> (string \<times> int) list \<Rightarrow> (string \<times> int) list result" where
  "init_week start_date [] result = Inr result"
| "init_week start_date (i # is) result =
     bind_exc (date_add start_date (int i))
       (\<lambda>d. init_week start_date is (dict_setitem result (isoformat d) 0))"

text \<open>Lines 78--79: \<^verbatim>\<open>for l in logs: result[str(l.date)] = l.minutes\<close>.\<close>

definition fill_logs :: "(string \<times> int) list \<Rightarrow> table \<Rightarrow> (string \<times> int) list" where
  "fill_logs result logs = foldl (\<lambda>r l. dict_setitem r (isoformat (date l)) (minutes l)) result logs"

text \<open>Lines 44--83, in the order the code runs them.\<close>

definition get_study_logs_for_week ::
  "verifier \<Rightarrow> date \<Rightarrow> string option \<Rightarrow> http_credentials \<Rightarrow> table \<Rightarrow> week_response result" where
  "get_study_logs_for_week verify_token today week_start cr db =
     bind_exc (authenticate verify_token cr) (\<lambda>uid.
     bind_exc (resolve_start_date week_start today) (\<lambda>start_date.
     bind_exc (date_add start_date 6) (\<lambda>end_date.
       let logs = query_week_logs db uid start_date end_date
       in bind_exc (init_week start_date [0..<7] []) (\<lambda>result0.
            let result = fill_logs result0 logs;
                total_minutes = sum_list (map snd result)
            in Inr \<lparr>resp_week_start = isoformat start_date, resp_logs = result,
                    resp_total = total_minutes\<rparr>))))"

text \<open>Lines 43--48: the route, with the bearer dependency resolved first.\<close>

definition get_study_logs ::
  "verifier \<Rightarrow> date \<Rightarrow> string option \<Rightarrow> string option \<Rightarrow> table \<Rightarrow> week_response result" where
  "get_study_logs verify_token today authorization week_start db =
     bind_exc (http_bearer authorization) (\<lambda>cr. get_study_logs_for_week verify_token today week_start cr db)"

section \<open>Specification-level vocabulary\<close>

text \<open>The minutes a table promises for a key, 0 when it has no row for it.\<close>

definition stored_minutes :: "table \<Rightarrow> jval \<times> date \<Rightarrow> int" where
  "stored_minutes db k = (case abs_table db k of None \<Rightarrow> 0 | Some v \<Rightarrow> v)"

text \<open>
  The minutes of the last row for a key in scan order, 0 when there is none: what
  a dict filled row by row (lines 78--79) keeps for that key.
\<close>

definition last_row_minutes :: "table \<Rightarrow> jval \<times> date \<Rightarrow> int" where
  "last_row_minutes db k = (case rev (filter (\<lambda>l. log_key l = k) db) of [] \<Rightarrow> 0 | l # _ \<Rightarrow> minutes l)"

text \<open>
  A verifier and credentials to run the handlers on in the examples: the token
  \<^verbatim>\<open>tok\<close> carries \<^verbatim>\<open>sub = "u1"\<close>, \<^verbatim>\<open>nosub\<close> verifies without a subject,
  anything else is refused with 401 as \<^verbatim>\<open>verify_token\<close> does.
\<close>

text \<open>
  The \<open>i\<close>-th day of the window starting at a date (the date itself where
  \<^verbatim>\<open>date + timedelta\<close> would overflow), and the seven days of the window.
\<close>

definition nth_day :: "date \<Rightarrow> nat \<Rightarrow> date" where
  "nth_day start i = (case date_add start (int i) of Inr d \<Rightarrow> d | Inl _ \<Rightarrow> start)"

definition week_days :: "date \<Rightarrow> date list" where
  "week_days start = map (nth_day start) [0..<7]"

text \<open>The abstract answer of GET: each day of the window with the minutes stored for it.\<close>

definition week_spec :: "table \<Rightarrow> jval \<Rightarrow> date \<Rightarrow> (string \<times> int) list" where
  "week_spec db uid start = map (\<lambda>d. (isoformat d, stored_minutes db (uid, d))) (week_days start)"

abbreviation demo_verifier :: verifier where
  "demo_verifier \<equiv> (\<lambda>t. if t = ''tok'' then Inr [''sub'' \<mapsto> JStr ''u1'']
                        else if t = ''nosub'' then Inr [''iss'' \<mapsto> JStr ''x'']
                        else Inl (HTTPException 401 ''Could not validate credentials''))"

abbreviation demo_cred :: "string \<Rightarrow> http_credentials" where
  "demo_cred t \<equiv> \<lparr>scheme = ''Bearer'', credentials = t\<rparr>"

section \<open>Lemmas: the upsert refines a map update\<close>

lemma upsert_log_found:
  assumes "unique_logs db" "find_today_log db uid today = Some i"
    and "upsert_log db uid today m = (log, db')"
  shows "unique_logs db' \<and> abs_table db' = (abs_table db)((uid, today) \<mapsto> stored_minutes db (uid, today) + m)
         \<and> minutes log = stored_minutes db (uid, today) + m"
proof -
  note i = find_today_log_Some [OF assms(2)]
  let ?ps = "map (\<lambda>l. (log_key l, minutes l)) db"
  have key: "log_key (db ! i) = (uid, today)" using i by (simp add: log_key_def)
  have "abs_table db (uid, today) = Some (minutes (db ! i))"
    using abs_table_nth [OF assms(1), of i] i key by simp
  then have old: "stored_minutes db (uid, today) = minutes (db ! i)"
    by (simp add: stored_minutes_def)
  have log: "log = (db ! i)\<lparr>minutes := minutes (db ! i) + m\<rparr>" "db' = db[i := log]"
    using assms(2,3) by (auto simp: upsert_log_def Let_def)
  have "map log_key db' = (map log_key db)[i := log_key (db ! i)]"
    using log by (simp add: map_update log_key_def)
  also have "\<dots> = map log_key db" using i by (metis list_update_id nth_map)
  finally have keys: "map log_key db' = map log_key db" .
  have "map (\<lambda>l. (log_key l, minutes l)) db' = ?ps[i := (fst (?ps ! i), minutes log)]"
    using log i by (simp add: map_update log_key_def)
  moreover have "distinct (map fst ?ps)" using assms(1) by (simp add: unique_logs_def comp_def)
  moreover have "map_of (?ps[i := (fst (?ps ! i), minutes log)]) = (map_of ?ps)(fst (?ps ! i) \<mapsto> minutes log)"
    using calculation(2) i by (intro map_of_list_update_same_key) simp_all
  ultimately have "abs_table db' = (abs_table db)(fst (?ps ! i) \<mapsto> minutes log)"
    unfolding abs_table_def by simp
  then show ?thesis using assms(1) keys key old log i
    by (simp add: unique_logs_def)
qed

lemma upsert_log_fresh:
  assumes "find_today_log db uid today = None" "upsert_log db uid today m = (log, db')"
  shows "(unique_logs db \<longrightarrow> unique_logs db')
         \<and> abs_table db' = (abs_table db)((uid, today) \<mapsto> stored_minutes db (uid, today) + m)
         \<and> minutes log = stored_minutes db (uid, today) + m"
proof -
  have fresh: "(uid, today) \<notin> set (map log_key db)" using assms(1) by (simp add: find_today_log_None)
  have log: "log = \<lparr>user_id = uid, date = today, minutes = m\<rparr>" "db' = db @ [log]"
    using assms by (auto simp: upsert_log_def Let_def)
  have "stored_minutes db (uid, today) = 0"
    using fresh abs_table_None [of db "(uid, today)"] by (simp add: stored_minutes_def)
  moreover have "abs_table db' = (abs_table db)((uid, today) \<mapsto> m)"
  proof -
    let ?ps = "map (\<lambda>l. (log_key l, minutes l)) db"
    have "abs_table db' = map_of (?ps @ [((uid, today), m)])"
      unfolding abs_table_def using log by (simp add: log_key_def del: map_of_append)
    also have "\<dots> = (map_of ?ps)((uid, today) \<mapsto> m)"
      by (rule map_of_snoc_fresh) (use fresh in \<open>simp add: comp_def\<close>)
    finally show ?thesis by (simp add: abs_table_def)
  qed
  ultimately show ?thesis using fresh log by (simp add: unique_logs_def log_key_def)
qed

lemma upsert_log_refines:
  assumes "unique_logs db" "upsert_log db uid today m = (log, db')"
  shows "unique_logs db' \<and> abs_table db' = (abs_table db)((uid, today) \<mapsto> stored_minutes db (uid, today) + m)
         \<and> minutes log = stored_minutes db (uid, today) + m"
  using assms upsert_log_found [OF assms(1)] upsert_log_fresh
  by (cases "find_today_log db uid today") auto

lemma unique_logs_count:
  assumes "unique_logs db" "k \<in> set (map log_key db)"
  shows "length (filter (\<lambda>l. log_key l = k) db) = 1"
proof -
  have "length (filter (\<lambda>l. log_key l = k) db) = length (filter (\<lambda>x. x = k) (map log_key db))"
    by (simp add: filter_map comp_def)
  also have "\<dots> = card ({x. x = k} \<inter> set (map log_key db))"
    using assms(1) unfolding unique_logs_def by (rule distinct_length_filter)
  also have "\<dots> = 1" using assms(2) by simp
  finally show ?thesis .
qed

lemma abs_table_stored:
  "abs_table db k = Some v \<Longrightarrow> stored_minutes db k = v"
  by (simp add: stored_minutes_def)

lemma add_study_time_authenticated:
  "authenticate verify_token cr = Inr uid \<Longrightarrow>
   add_study_time verify_token today req cr db =
     (case upsert_log db uid today (req_minutes req) of (log, db') \<Rightarrow>
        Inr (\<lparr>message = ''Study time added'', resp_date = isoformat today,
              resp_minutes = minutes log\<rparr>, db'))"
  by (simp add: add_study_time_def)

lemma add_study_time_step:
  assumes "authenticate verify_token cr = Inr uid" "unique_logs db"
  shows "\<exists>db'. add_study_time verify_token today req cr db =
            Inr (\<lparr>message = ''Study time added'', resp_date = isoformat today,
                  resp_minutes = stored_minutes db (uid, today) + req_minutes req\<rparr>, db')
          \<and> unique_logs db'
          \<and> abs_table db' = (abs_table db)((uid, today) \<mapsto> stored_minutes db (uid, today) + req_minutes req)"
proof -
  obtain log db' where u: "upsert_log db uid today (req_minutes req) = (log, db')"
    by (cases "upsert_log db uid today (req_minutes req)") auto
  with upsert_log_refines [OF assms(2) u] add_study_time_authenticated [OF assms(1)]
  show ?thesis by simp
qed

section \<open>Lemmas: the window of GET\<close>

lemma toordinal_le_iff:
  "valid_date a \<Longrightarrow> valid_date b \<Longrightarrow> toordinal a \<le> toordinal b \<longleftrightarrow> a \<le> b"
  using toordinal_less_iff [of a b] toordinal_inj [of a b] by (auto simp: le_less)

lemma nth_day_window:
  assumes "valid_date start" "date_add start 6 = Inr e" "i \<le> 6"
  shows "date_add start (int i) = Inr (nth_day start i) \<and> valid_date (nth_day start i)
         \<and> toordinal (nth_day start i) = toordinal start + int i"
proof -
  have "toordinal e = toordinal start + 6" "valid_date e" using date_add_Inr [OF assms(2)] by simp_all
  then have "0 < toordinal start + int i" "toordinal start + int i \<le> MAXORDINAL"
    using toordinal_range [OF assms(1)] toordinal_range [of e] assms(3) by simp_all
  then obtain d where "date_add start (int i) = Inr d" "valid_date d" "toordinal d = toordinal start + int i"
    using date_add_ok by blast
  then show ?thesis by (simp add: nth_day_def)
qed

lemma nth_day_6:
  "valid_date start \<Longrightarrow> date_add start 6 = Inr e \<Longrightarrow> nth_day start 6 = e"
  by (simp add: nth_day_def)

lemma week_days_sorted:
  assumes "valid_date start" "date_add start 6 = Inr e"
  shows "sorted_wrt (<) (week_days start)"
proof -
  have "sorted_wrt (<) [0..<7::nat]" by simp
  then have "sorted_wrt (\<lambda>i j. nth_day start i < nth_day start j) [0..<7]"
  proof (rule sorted_wrt_mono_rel [rotated])
    fix i j :: nat assume "i \<in> set [0..<7]" "j \<in> set [0..<7]" "i < j"
    with nth_day_window [OF assms, of i] nth_day_window [OF assms, of j]
    show "nth_day start i < nth_day start j" by (simp add: toordinal_less_iff [symmetric])
  qed
  then show ?thesis by (simp add: week_days_def sorted_wrt_map)
qed

lemma week_days_valid:
  "valid_date start \<Longrightarrow> date_add start 6 = Inr e \<Longrightarrow> d \<in> set (week_days start) \<Longrightarrow> valid_date d"
  using nth_day_window by (auto simp: week_days_def)

lemma week_keys_distinct:
  assumes "valid_date start" "date_add start 6 = Inr e"
  shows "distinct (map isoformat (week_days start))"
proof -
  have "distinct (week_days start)"
    using week_days_sorted [OF assms] by (simp add: strict_sorted_iff)
  moreover have "inj_on isoformat (set (week_days start))"
    using week_days_valid [OF assms] isoformat_inj by (auto intro: inj_onI)
  ultimately show ?thesis by (simp add: distinct_map)
qed

lemma window_member:
  assumes "valid_date start" "date_add start 6 = Inr e" "valid_date x" "start \<le> x" "x \<le> e"
  shows "x \<in> set (week_days start)"
proof -
  have e: "toordinal e = toordinal start + 6" "valid_date e" using date_add_Inr [OF assms(2)] by simp_all
  have lo: "toordinal start \<le> toordinal x" using assms(1,3,4) toordinal_le_iff by blast
  have hi: "toordinal x \<le> toordinal start + 6" using assms(3,5) e toordinal_le_iff by metis
  define j where "j = nat (toordinal x - toordinal start)"
  have j: "j \<le> 6" "int j = toordinal x - toordinal start" using lo hi by (simp_all add: j_def)
  then have "nth_day start j = x"
    using nth_day_window [OF assms(1,2) j(1)] toordinal_inj [OF _ assms(3)] by simp
  with j show ?thesis by (force simp: week_days_def)
qed

lemma week_days_window:
  assumes "valid_date start" "date_add start 6 = Inr e" "d \<in> set (week_days start)"
  shows "start \<le> d \<and> d \<le> e"
proof -
  obtain i where "i < 7" and i2: "d = nth_day start i"
    using assms(3) unfolding week_days_def by auto
  then have i: "i \<le> 6" "d = nth_day start i" by simp_all
  have e: "toordinal e = toordinal start + 6" "valid_date e" using date_add_Inr [OF assms(2)] by simp_all
  from nth_day_window [OF assms(1,2) i(1)] i e assms(1) show ?thesis
    by (simp add: toordinal_le_iff [symmetric])
qed

lemma init_week_foldl:
  "\<forall>i \<in> set ns. date_add start (int i) = Inr (nth_day start i) \<Longrightarrow>
   init_week start ns r = Inr (foldl (\<lambda>r i. dict_setitem r (isoformat (nth_day start i)) 0) r ns)"
  by (induction ns arbitrary: r) simp_all

lemma init_week_window:
  assumes "valid_date start" "date_add start 6 = Inr e"
  shows "init_week start [0..<7] [] = Inr (map (\<lambda>d. (isoformat d, 0)) (week_days start))"
proof -
  have "\<forall>i \<in> set [0..<7]. date_add start (int i) = Inr (nth_day start i)"
    using nth_day_window [OF assms] by simp
  then have "init_week start [0..<7] [] =
      Inr (foldl (\<lambda>r i. dict_setitem r (isoformat (nth_day start i)) 0) [] [0..<7])"
    by (rule init_week_foldl)
  also have "\<dots> = Inr (map (\<lambda>i. (isoformat (nth_day start i), 0)) [0..<7])"
    using week_keys_distinct [OF assms]
    by (subst foldl_dict_setitem_fresh [where f = "\<lambda>i. isoformat (nth_day start i)"])
       (simp_all add: week_days_def comp_def)
  finally show ?thesis by (simp add: week_days_def comp_def)
qed

lemma abs_table_filter:
  "abs_table db k = (case filter (\<lambda>l. log_key l = k) db of [] \<Rightarrow> None | l # _ \<Rightarrow> Some (minutes l))"
  by (induction db) (auto simp: abs_table_def)

lemma unique_logs_filter:
  assumes "unique_logs db"
  shows "last_row_minutes db k = stored_minutes db k"
proof -
  have "length (filter (\<lambda>l. log_key l = k) db) = length (filter (\<lambda>x. x = k) (map log_key db))"
    by (simp add: filter_map comp_def)
  also have "\<dots> = card ({x. x = k} \<inter> set (map log_key db))"
    using assms unfolding unique_logs_def by (rule distinct_length_filter)
  also have "\<dots> \<le> 1" by (simp add: card_le_Suc0_iff_eq)
  finally have "length (filter (\<lambda>l. log_key l = k) db) \<le> 1" .
  then show ?thesis
    by (cases "filter (\<lambda>l. log_key l = k) db")
       (auto simp: last_row_minutes_def stored_minutes_def abs_table_filter)
qed

lemma fill_logs_last:
  assumes "valid_date start" "date_add start 6 = Inr e" "valid_rows db"
  shows "fill_logs (map (\<lambda>d. (isoformat d, 0)) (week_days start)) (query_week_logs db uid start e)
           = map (\<lambda>d. (isoformat d, last_row_minutes db (uid, d))) (week_days start)"
proof -
  let ?init = "map (\<lambda>d. (isoformat d, 0::int)) (week_days start)"
  let ?logs = "query_week_logs db uid start e"
  let ?res = "fill_logs ?init ?logs"
  have in_win: "\<And>l. l \<in> set ?logs \<Longrightarrow> date l \<in> set (week_days start)"
    using assms(3) window_member [OF assms(1,2)] by (auto simp: query_week_logs_def valid_rows_def)
  have keys: "map fst ?res = map isoformat (week_days start)"
    unfolding fill_logs_def
    by (subst foldl_dict_setitem_keys) (auto simp: comp_def dest: in_win)
  have dist: "distinct (map fst ?res)" using keys week_keys_distinct [OF assms(1,2)] by simp
  have val: "the (map_of ?res (isoformat d)) = last_row_minutes db (uid, d)" if d: "d \<in> set (week_days start)" for d
  proof -
    have vd: "valid_date d" using week_days_valid [OF assms(1,2) d] .
    have same: "filter (\<lambda>l. isoformat (date l) = isoformat d) (rev ?logs)
        = rev (filter (\<lambda>l. log_key l = (uid, d)) db)"
      using assms(3) vd week_days_window [OF assms(1,2) d]
      by (auto simp: query_week_logs_def rev_filter log_key_def valid_rows_def
          intro!: filter_cong dest: isoformat_inj)
    have "map_of ?init (isoformat d) = Some 0"
      using d week_keys_distinct [OF assms(1,2)] by (auto simp: comp_def)
    then show ?thesis
      unfolding fill_logs_def foldl_dict_setitem_map_of same last_row_minutes_def
      by (auto split: list.splits)
  qed
  have "?res = map (\<lambda>k. (k, the (map_of ?res k))) (map fst ?res)" using dist by (rule alist_by_keys)
  also have "\<dots> = map (\<lambda>d. (isoformat d, last_row_minutes db (uid, d))) (week_days start)"
    unfolding keys using val by simp
  finally show ?thesis .
qed

lemma fill_logs_window:
  assumes "valid_date start" "date_add start 6 = Inr e" "unique_logs db" "valid_rows db"
  shows "fill_logs (map (\<lambda>d. (isoformat d, 0)) (week_days start)) (query_week_logs db uid start e)
           = week_spec db uid start"
  using fill_logs_last [OF assms(1,2,4)] unique_logs_filter [OF assms(3)] by (simp add: week_spec_def)

lemma resolve_start_date_valid:
  "resolve_start_date ws today = Inr start \<Longrightarrow> valid_date start"
  by (auto simp: resolve_start_date_def dest: strptime_date_valid date_add_Inr
      split: option.splits if_splits sum.splits exc.splits)

lemma get_study_logs_for_week_Inr:
  "get_study_logs_for_week verify_token today ws cr db = Inr r \<longleftrightarrow>
   (\<exists>uid start e. authenticate verify_token cr = Inr uid \<and> resolve_start_date ws today = Inr start
      \<and> date_add start 6 = Inr e
      \<and> r = (let res = fill_logs (map (\<lambda>d. (isoformat d, 0)) (week_days start)) (query_week_logs db uid start e)
              in \<lparr>resp_week_start = isoformat start, resp_logs = res, resp_total = sum_list (map snd res)\<rparr>))"
  (is "?lhs \<longleftrightarrow> ?rhs")
proof
  assume ?lhs
  then obtain uid start e res0 where a: "authenticate verify_token cr = Inr uid"
    and s: "resolve_start_date ws today = Inr start" and e: "date_add start 6 = Inr e"
    and i: "init_week start [0..<7] [] = Inr res0"
    and r: "r = \<lparr>resp_week_start = isoformat start, resp_logs = fill_logs res0 (query_week_logs db uid start e),
                resp_total = sum_list (map snd (fill_logs res0 (query_week_logs db uid start e)))\<rparr>"
    by (auto simp: get_study_logs_for_week_def Let_def)
  from i init_week_window [OF resolve_start_date_valid [OF s] e]
  have "res0 = map (\<lambda>d. (isoformat d, 0)) (week_days start)" by simp
  with a s e r show ?rhs by (auto simp: Let_def)
next
  assume ?rhs
  then obtain uid start e where a: "authenticate verify_token cr = Inr uid"
    and s: "resolve_start_date ws today = Inr start" and e: "date_add start 6 = Inr e"
    and r: "r = (let res = fill_logs (map (\<lambda>d. (isoformat d, 0)) (week_days start)) (query_week_logs db uid start e)
              in \<lparr>resp_week_start = isoformat start, resp_logs = res, resp_total = sum_list (map snd res)\<rparr>)"
    by blast
  with init_week_window [OF resolve_start_date_valid [OF s] e] show ?lhs
    by (simp add: get_study_logs_for_week_def Let_def)
qed

lemma fill_logs_keys:
  assumes "valid_date start" "date_add start 6 = Inr e" "valid_rows db"
  shows "map fst (fill_logs (map (\<lambda>d. (isoformat d, 0)) (week_days start)) (query_week_logs db uid start e))
           = map isoformat (week_days start)"
proof -
  have "\<And>l. l \<in> set (query_week_logs db uid start e) \<Longrightarrow> date l \<in> set (week_days start)"
    using assms(3) window_member [OF assms(1,2)] by (auto simp: query_week_logs_def valid_rows_def)
  then show ?thesis unfolding fill_logs_def
    by (subst foldl_dict_setitem_keys) (auto simp: comp_def)
qed

lemma get_study_logs_for_week_keys:
  assumes "get_study_logs_for_week verify_token today ws cr db = Inr r" "valid_rows db"
  shows "\<exists>start e. resolve_start_date ws today = Inr start \<and> date_add start 6 = Inr e
           \<and> resp_week_start r = isoformat start \<and> map fst (resp_logs r) = map isoformat (week_days start)"
  using assms(1) fill_logs_keys [OF resolve_start_date_valid _ assms(2)]
  unfolding get_study_logs_for_week_Inr by (force simp: Let_def)

lemma week_days_toordinal:
  "valid_date start \<Longrightarrow> date_add start 6 = Inr e \<Longrightarrow> i < 7 \<Longrightarrow>
   toordinal (week_days start ! i) = toordinal start + int i"
  using nth_day_window [of start e i] by (simp add: week_days_def)

lemma get_study_logs_for_week_exists:
  "authenticate verify_token cr = Inr uid \<Longrightarrow> resolve_start_date ws today = Inr start \<Longrightarrow>
   date_add start 6 = Inr e \<Longrightarrow> \<exists>r. get_study_logs_for_week verify_token today ws cr db = Inr r"
  by (auto simp: get_study_logs_for_week_Inr)

lemma query_week_logs_empty:
  assumes "valid_date start" "date_add start 6 = Inr e" "valid_rows db"
    and "\<forall>l \<in> set db. user_id l = uid \<longrightarrow> date l \<notin> set (week_days start)"
  shows "query_week_logs db uid start e = []"
  using assms window_member [OF assms(1,2)] by (auto simp: query_week_logs_def valid_rows_def filter_empty_conv)

lemma upsert_log_rows:
  assumes "upsert_log db uid today m = (log, db')"
  shows "set db' \<subseteq> insert log (set db) \<and> date log = today
         \<and> (minutes log = m \<or> (\<exists>l \<in> set db. minutes log = minutes l + m))"
proof (cases "find_today_log db uid today")
  case None
  with assms show ?thesis by (auto simp: upsert_log_def Let_def)
next
  case (Some i)
  with find_today_log_Some have i: "i < length db" "date (db ! i) = today" by blast+
  with Some assms show ?thesis by (auto simp: upsert_log_def Let_def dest: subsetD [OF set_update_subset_insert])
qed

lemma add_study_time_rows:
  assumes "add_study_time verify_token today req cr db = Inr (resp, db')"
  shows "\<exists>log. set db' \<subseteq> insert log (set db) \<and> date log = today \<and> resp_minutes resp = minutes log
           \<and> (minutes log = req_minutes req \<or> (\<exists>l \<in> set db. minutes log = minutes l + req_minutes req))"
proof -
  obtain uid where a: "authenticate verify_token cr = Inr uid" using assms by (auto simp: add_study_time_def)
  obtain log db'' where u: "upsert_log db uid today (req_minutes req) = (log, db'')"
    by (cases "upsert_log db uid today (req_minutes req)")
  from assms have "resp_minutes resp = minutes log \<and> db'' = db'"
    by (auto simp: add_study_time_authenticated [OF a] u)
  with upsert_log_rows [OF u] show ?thesis by blast
qed

lemma abs_table_Some_row: "abs_table db k = Some v \<Longrightarrow> \<exists>l \<in> set db. log_key l = k \<and> minutes l = v"
  by (auto simp: abs_table_def dest!: map_of_SomeD)


lemma demo_auth: "authenticate demo_verifier (demo_cred ''tok'') = Inr (JStr ''u1'')"
  by (simp add: authenticate_def dict_get_def)

lemma demo_resolve: "resolve_start_date (Some ''2024-03-10'') today = Inr (Date 2024 3 10)"
proof -
  have "strptime_date ''2024-03-10'' = Inr (Date 2024 3 10)" by code_simp
  then show ?thesis by (simp add: resolve_start_date_def)
qed

lemma demo_end: "date_add (Date 2024 3 10) 6 = Inr (Date 2024 3 16)"
  by code_simp

lemma demo_week_days:
  "map isoformat (week_days (Date 2024 3 10)) =
     [''2024-03-10'', ''2024-03-11'', ''2024-03-12'', ''2024-03-13'', ''2024-03-14'', ''2024-03-15'', ''2024-03-16'']"
  by code_simp

lemma demo_valid_rows:
  "valid_rows [\<lparr>user_id = JStr ''u1'', date = Date 2024 3 12, minutes = 30\<rparr>,
               \<lparr>user_id = JStr ''u2'', date = Date 2024 3 12, minutes = 99\<rparr>]"
  by code_simp

lemma demo_unique_logs:
  "unique_logs [\<lparr>user_id = JStr ''u1'', date = Date 2024 3 12, minutes = 30\<rparr>,
                \<lparr>user_id = JStr ''u2'', date = Date 2024 3 12, minutes = 99\<rparr>]"
  by (simp add: unique_logs_def log_key_def)

lemma demo_get_exists:
  "\<exists>r. get_study_logs_for_week demo_verifier today (Some ''2024-03-10'') (demo_cred ''tok'') db = Inr r"
  using demo_auth demo_resolve demo_end by (auto simp: get_study_logs_for_week_Inr)

section \<open>Properties of POST /api/study_logs\<close>

text \<open>
  C1. Recording study time refines the abstract specification of the spec's data
  model: on a table with at most one row per user and day, an authenticated call adds
  the request's minutes to the user's entry for today (0 when there is none), keeps
  the table free of duplicate keys, and answers with today's date and the new total.
\<close>

theorem add_study_time_refines:
  assumes "authenticate verify_token cr = Inr uid" "unique_logs db"
  shows "\<exists>db'. add_study_time verify_token today req cr db =
            Inr (\<lparr>message = ''Study time added'', resp_date = isoformat today,
                  resp_minutes = stored_minutes db (uid, today) + req_minutes req\<rparr>, db')
          \<and> unique_logs db'
          \<and> abs_table db' = (abs_table db)((uid, today) \<mapsto> stored_minutes db (uid, today) + req_minutes req)"
  using assms by (rule add_study_time_step)

theorem add_study_time_refines_witness:
  "\<exists>db'. add_study_time demo_verifier (Date 2024 3 10) \<lparr>req_minutes = 30\<rparr> (demo_cred ''tok'') [] =
          Inr (\<lparr>message = ''Study time added'', resp_date = isoformat (Date 2024 3 10), resp_minutes = 30\<rparr>, db')
        \<and> unique_logs db' \<and> abs_table db' = [(JStr ''u1'', Date 2024 3 10) \<mapsto> 30]"
proof -
  have "authenticate demo_verifier (demo_cred ''tok'') = Inr (JStr ''u1'')"
    by (simp add: authenticate_def dict_get_def)
  moreover have "unique_logs []" by (simp add: unique_logs_def)
  ultimately show ?thesis
    using add_study_time_refines [of demo_verifier "demo_cred ''tok''" "JStr ''u1''" "[]"
        "Date 2024 3 10" "\<lparr>req_minutes = 30\<rparr>"]
    by (simp add: stored_minutes_def abs_table_def)
qed

section \<open>Properties of GET /api/study_logs and of the authentication gate\<close>

text \<open>
  C2. Reading a week refines the abstract specification: on a table with at most one row
  per user and day whose dates are real dates, an authenticated call answers, for
  the window starting at the resolved start date, each of its seven days with the
  minutes stored for the user on that day (0 when there is none), echoes the start
  date and reports the sum of those minutes as the total.
\<close>

theorem get_study_logs_refines:
  assumes "authenticate verify_token cr = Inr uid" "unique_logs db" "valid_rows db"
    and "get_study_logs_for_week verify_token today ws cr db = Inr r"
  shows "\<exists>start. resolve_start_date ws today = Inr start \<and> resp_week_start r = isoformat start
           \<and> resp_logs r = week_spec db uid start
           \<and> resp_total r = sum_list (map snd (week_spec db uid start))"
proof -
  from assms(4) obtain uid' start e where a: "authenticate verify_token cr = Inr uid'"
    and s: "resolve_start_date ws today = Inr start" and e: "date_add start 6 = Inr e"
    and r: "r = (let res = fill_logs (map (\<lambda>d. (isoformat d, 0)) (week_days start)) (query_week_logs db uid' start e)
              in \<lparr>resp_week_start = isoformat start, resp_logs = res, resp_total = sum_list (map snd res)\<rparr>)"
    unfolding get_study_logs_for_week_Inr by blast
  from a assms(1) have "uid' = uid" by simp
  with r fill_logs_window [OF resolve_start_date_valid [OF s] e assms(2,3)] s show ?thesis
    by (simp add: Let_def)
qed

theorem get_study_logs_refines_witness:
  "\<exists>r. get_study_logs_for_week demo_verifier (Date 2024 3 20) (Some ''2024-03-10'') (demo_cred ''tok'')
         [\<lparr>user_id = JStr ''u1'', date = Date 2024 3 12, minutes = 30\<rparr>,
          \<lparr>user_id = JStr ''u2'', date = Date 2024 3 12, minutes = 99\<rparr>] = Inr r
     \<and> resp_week_start r = ''2024-03-10''
     \<and> resp_logs r = [(''2024-03-10'', 0), (''2024-03-11'', 0), (''2024-03-12'', 30), (''2024-03-13'', 0),
                      (''2024-03-14'', 0), (''2024-03-15'', 0), (''2024-03-16'', 0)]
     \<and> resp_total r = 30"
proof -
  let ?db = "[\<lparr>user_id = JStr ''u1'', date = Date 2024 3 12, minutes = 30\<rparr>,
              \<lparr>user_id = JStr ''u2'', date = Date 2024 3 12, minutes = 99\<rparr>]"
  obtain r where g: "get_study_logs_for_week demo_verifier (Date 2024 3 20) (Some ''2024-03-10'') (demo_cred ''tok'') ?db = Inr r"
    using demo_get_exists by blast
  have ws: "week_spec ?db (JStr ''u1'') (Date 2024 3 10) =
      [(''2024-03-10'', 0), (''2024-03-11'', 0), (''2024-03-12'', 30), (''2024-03-13'', 0),
       (''2024-03-14'', 0), (''2024-03-15'', 0), (''2024-03-16'', 0)]"
    by code_simp
  from get_study_logs_refines [OF demo_auth demo_unique_logs demo_valid_rows g] demo_resolve
  have "resp_week_start r = isoformat (Date 2024 3 10) \<and> resp_logs r = week_spec ?db (JStr ''u1'') (Date 2024 3 10)
        \<and> resp_total r = sum_list (map snd (week_spec ?db (JStr ''u1'') (Date 2024 3 10)))"
    by simp
  moreover have "isoformat (Date 2024 3 10) = ''2024-03-10''" by code_simp
  ultimately show ?thesis using g ws by auto
qed

text \<open>
  C3. Every successful answer of GET has exactly seven distinct keys: the ISO
  dates of seven consecutive days starting at the echoed week start, in ascending
  order of day (the i-th key is the start's ordinal plus i).
\<close>

theorem get_week_window:
  assumes "get_study_logs_for_week verify_token today ws cr db = Inr r" "valid_rows db"
  shows "\<exists>start. resp_week_start r = isoformat start
           \<and> map fst (resp_logs r) = map isoformat (week_days start)
           \<and> length (resp_logs r) = 7 \<and> distinct (map fst (resp_logs r))
           \<and> (\<forall>i < 7. toordinal (week_days start ! i) = toordinal start + int i)"
proof -
  obtain start e where s: "resolve_start_date ws today = Inr start" and e: "date_add start 6 = Inr e"
    and w: "resp_week_start r = isoformat start" and k: "map fst (resp_logs r) = map isoformat (week_days start)"
    using get_study_logs_for_week_keys [OF assms] by blast
  note v = resolve_start_date_valid [OF s]
  have "length (resp_logs r) = 7" using arg_cong [OF k, of length] by (simp add: week_days_def)
  moreover have "distinct (map fst (resp_logs r))" using k week_keys_distinct [OF v e] by simp
  moreover have "\<forall>i < 7. toordinal (week_days start ! i) = toordinal start + int i"
    using week_days_toordinal [OF v e] by simp
  ultimately show ?thesis using w k by blast
qed

theorem get_week_window_witness:
  "\<exists>r. get_study_logs_for_week demo_verifier (Date 2024 3 20) (Some ''2024-03-10'') (demo_cred ''tok'')
         [\<lparr>user_id = JStr ''u1'', date = Date 2024 3 12, minutes = 30\<rparr>,
          \<lparr>user_id = JStr ''u2'', date = Date 2024 3 12, minutes = 99\<rparr>] = Inr r
     \<and> (\<exists>start. resp_week_start r = isoformat start
           \<and> map fst (resp_logs r) = map isoformat (week_days start)
           \<and> length (resp_logs r) = 7 \<and> distinct (map fst (resp_logs r))
           \<and> (\<forall>i < 7. toordinal (week_days start ! i) = toordinal start + int i))"
proof -
  obtain r where g: "get_study_logs_for_week demo_verifier (Date 2024 3 20) (Some ''2024-03-10'') (demo_cred ''tok'')
         [\<lparr>user_id = JStr ''u1'', date = Date 2024 3 12, minutes = 30\<rparr>,
          \<lparr>user_id = JStr ''u2'', date = Date 2024 3 12, minutes = 99\<rparr>] = Inr r"
    using demo_get_exists by blast
  show ?thesis using g get_week_window [OF g demo_valid_rows] by blast
qed

text \<open>
  C4. Zero fill (spec section 8): when the user has no row on any day of the queried
  window, every one of the seven days is answered with 0 and the total is 0.
\<close>

theorem get_week_zero_fill:
  assumes "get_study_logs_for_week verify_token today ws cr db = Inr r"
    and "authenticate verify_token cr = Inr uid" "resolve_start_date ws today = Inr start" "valid_rows db"
    and "\<forall>l \<in> set db. user_id l = uid \<longrightarrow> date l \<notin> set (week_days start)"
  shows "resp_logs r = map (\<lambda>d. (isoformat d, 0)) (week_days start) \<and> resp_total r = 0"
proof -
  from assms(1) obtain uid' start' e where a: "authenticate verify_token cr = Inr uid'"
    and s: "resolve_start_date ws today = Inr start'" and e: "date_add start' 6 = Inr e"
    and r: "r = (let res = fill_logs (map (\<lambda>d. (isoformat d, 0)) (week_days start')) (query_week_logs db uid' start' e)
              in \<lparr>resp_week_start = isoformat start', resp_logs = res, resp_total = sum_list (map snd res)\<rparr>)"
    unfolding get_study_logs_for_week_Inr by blast
  from a s assms(2,3) have "uid' = uid" "start' = start" by simp_all
  with query_week_logs_empty [OF resolve_start_date_valid [OF s] e assms(4)] assms(5) r
  show ?thesis by (simp add: fill_logs_def Let_def comp_def)
qed

theorem get_week_zero_fill_witness:
  "\<exists>r. get_study_logs_for_week demo_verifier (Date 2024 3 20) (Some ''2024-03-10'') (demo_cred ''tok'')
         [\<lparr>user_id = JStr ''u1'', date = Date 2024 3 20, minutes = 30\<rparr>,
          \<lparr>user_id = JStr ''u2'', date = Date 2024 3 12, minutes = 99\<rparr>] = Inr r
     \<and> resp_logs r = map (\<lambda>d. (isoformat d, 0)) (week_days (Date 2024 3 10)) \<and> resp_total r = 0"
proof -
  let ?db = "[\<lparr>user_id = JStr ''u1'', date = Date 2024 3 20, minutes = 30\<rparr>,
              \<lparr>user_id = JStr ''u2'', date = Date 2024 3 12, minutes = 99\<rparr>]"
  obtain r where g: "get_study_logs_for_week demo_verifier (Date 2024 3 20) (Some ''2024-03-10'') (demo_cred ''tok'') ?db = Inr r"
    using demo_get_exists by blast
  have "valid_rows ?db" by code_simp
  moreover have "\<forall>l \<in> set ?db. user_id l = JStr ''u1'' \<longrightarrow> date l \<notin> set (week_days (Date 2024 3 10))"
    by code_simp
  ultimately show ?thesis using g get_week_zero_fill [OF g demo_auth demo_resolve] by blast
qed

text \<open>
  C5. Without week_start the window ends today: it starts six days before today and
  its last day is today (for any valid today at least seven days after 0001-01-01).
\<close>

theorem get_default_window:
  assumes "authenticate verify_token cr = Inr uid" "valid_date today" "7 \<le> toordinal today"
    and "valid_rows db"
  shows "\<exists>r start. get_study_logs_for_week verify_token today None cr db = Inr r
           \<and> toordinal start + 6 = toordinal today \<and> resp_week_start r = isoformat start
           \<and> map fst (resp_logs r) = map isoformat (week_days start) \<and> week_days start ! 6 = today"
proof -
  obtain start where s: "date_add today (- 6) = Inr start" and v: "valid_date start"
    and o: "toordinal start = toordinal today - 6"
    using date_add_ok [of today "- 6"] assms(3) toordinal_range [OF assms(2)] by auto
  have e: "date_add start 6 = Inr today"
    using date_add_add [OF s, of 6] date_add_zero [OF assms(2)] by simp
  have rs: "resolve_start_date None today = Inr start" using s by (simp add: resolve_start_date_def)
  obtain r where g: "get_study_logs_for_week verify_token today None cr db = Inr r"
    using get_study_logs_for_week_exists [OF assms(1) rs e] by blast
  from get_study_logs_for_week_keys [OF g assms(4)] rs
  have "resp_week_start r = isoformat start \<and> map fst (resp_logs r) = map isoformat (week_days start)"
    by auto
  moreover have "week_days start ! 6 = today" using nth_day_6 [OF v e] by (simp add: week_days_def)
  moreover have "toordinal start + 6 = toordinal today" using o by simp
  ultimately show ?thesis using g by blast
qed

theorem get_default_window_witness:
  "\<exists>r start. get_study_logs_for_week demo_verifier (Date 2024 3 16) None (demo_cred ''tok'') [] = Inr r
      \<and> toordinal start + 6 = toordinal (Date 2024 3 16) \<and> resp_week_start r = isoformat start
      \<and> map fst (resp_logs r) = map isoformat (week_days start) \<and> week_days start ! 6 = Date 2024 3 16"
proof -
  have "valid_date (Date 2024 3 16)" "7 \<le> toordinal (Date 2024 3 16)" "valid_rows []" by code_simp+
  then show ?thesis using get_default_window [OF demo_auth] by blast
qed

text \<open>
  C6. The spec's example: with week_start "2024-03-10" an authenticated call echoes
  "2024-03-10" and answers the keys 2024-03-10 to 2024-03-16 in that order.
\<close>

theorem get_week_start_example:
  assumes "authenticate verify_token cr = Inr uid" "valid_rows db"
  shows "\<exists>r. get_study_logs_for_week verify_token today (Some ''2024-03-10'') cr db = Inr r
           \<and> resp_week_start r = ''2024-03-10''
           \<and> map fst (resp_logs r) = [''2024-03-10'', ''2024-03-11'', ''2024-03-12'', ''2024-03-13'',
                                     ''2024-03-14'', ''2024-03-15'', ''2024-03-16'']"
proof -
  obtain r where g: "get_study_logs_for_week verify_token today (Some ''2024-03-10'') cr db = Inr r"
    using get_study_logs_for_week_exists [OF assms(1) demo_resolve demo_end] by blast
  have "isoformat (Date 2024 3 10) = ''2024-03-10''" by code_simp
  with get_study_logs_for_week_keys [OF g assms(2)] demo_resolve demo_week_days g show ?thesis
    by auto
qed

theorem get_week_start_example_witness:
  "\<exists>r. get_study_logs_for_week demo_verifier (Date 2024 3 20) (Some ''2024-03-10'') (demo_cred ''tok'') [] = Inr r
      \<and> resp_week_start r = ''2024-03-10''
      \<and> map fst (resp_logs r) = [''2024-03-10'', ''2024-03-11'', ''2024-03-12'', ''2024-03-13'',
                                ''2024-03-14'', ''2024-03-15'', ''2024-03-16'']"
proof -
  have "valid_rows []" by (simp add: valid_rows_def)
  then show ?thesis using get_week_start_example [OF demo_auth] by blast
qed

text \<open>
  C7. A non-empty week_start that strptime rejects with ValueError (for instance
  "not-a-date") is answered with the client error 400 and the message naming the
  format, for an authenticated caller.
\<close>

theorem get_malformed_week_start:
  assumes "authenticate verify_token cr = Inr uid" "s \<noteq> []" "strptime_date s = Inl ValueError"
  shows "get_study_logs_for_week verify_token today (Some s) cr db =
           Inl (HTTPException 400 ''Invalid week_start format. Use YYYY-MM-DD.'')"
  using assms by (simp add: get_study_logs_for_week_def resolve_start_date_def)

theorem get_malformed_week_start_witness:
  "get_study_logs_for_week demo_verifier (Date 2024 3 20) (Some ''not-a-date'') (demo_cred ''tok'') [] =
     Inl (HTTPException 400 ''Invalid week_start format. Use YYYY-MM-DD.'')"
proof -
  have "strptime_date ''not-a-date'' = Inl ValueError" by code_simp
  then show ?thesis using get_malformed_week_start [OF demo_auth] by simp
qed

text \<open>
  C8. Authentication comes first: when verifying the token (or its subject) fails, both
  endpoints answer with exactly that error, whatever the request body or week_start
  (a malformed week_start included), and POST changes no row.
\<close>

theorem auth_failure_blocks_both:
  assumes "authenticate verify_token cr = Inl e"
  shows "add_study_time verify_token today req cr db = Inl e
         \<and> get_study_logs_for_week verify_token today ws cr db = Inl e"
  using assms by (simp add: add_study_time_def get_study_logs_for_week_def)

theorem auth_failure_blocks_both_witness:
  "add_study_time demo_verifier (Date 2024 3 10) \<lparr>req_minutes = 30\<rparr> (demo_cred ''expired'') [] =
     Inl (HTTPException 401 ''Could not validate credentials'')
   \<and> get_study_logs_for_week demo_verifier (Date 2024 3 10) (Some ''not-a-date'') (demo_cred ''expired'') [] =
     Inl (HTTPException 401 ''Could not validate credentials'')"
proof -
  have "authenticate demo_verifier (demo_cred ''expired'') = Inl (HTTPException 401 ''Could not validate credentials'')"
    by (simp add: authenticate_def)
  then show ?thesis by (rule auth_failure_blocks_both)
qed

text \<open>
  C9. A token that verifies but carries no subject is refused by both endpoints with
  401 "Invalid token".
\<close>

theorem missing_sub_401:
  assumes "verify_token (credentials cr) = Inr p" "dict_get p ''sub'' = JNull"
  shows "add_study_time verify_token today req cr db = Inl (HTTPException 401 ''Invalid token'')
         \<and> get_study_logs_for_week verify_token today ws cr db = Inl (HTTPException 401 ''Invalid token'')"
  using authenticate_no_sub [of verify_token cr p, OF assms] by (simp add: add_study_time_def get_study_logs_for_week_def)

theorem missing_sub_401_witness:
  "add_study_time demo_verifier (Date 2024 3 10) \<lparr>req_minutes = 30\<rparr> (demo_cred ''nosub'') [] =
     Inl (HTTPException 401 ''Invalid token'')
   \<and> get_study_logs_for_week demo_verifier (Date 2024 3 10) None (demo_cred ''nosub'') [] =
     Inl (HTTPException 401 ''Invalid token'')"
  using missing_sub_401 [of demo_verifier "demo_cred ''nosub''" "[''iss'' \<mapsto> JStr ''x'']"]
  by (simp add: dict_get_def)

text \<open>
  C16. Round trip: a week_start written in the canonical form of a valid date (far enough
  from year 9999 for the window to exist) is accepted and echoed unchanged.
\<close>

theorem get_echo_canonical:
  assumes "authenticate verify_token cr = Inr uid" "valid_date d" "toordinal d + 6 \<le> MAXORDINAL"
  shows "\<exists>r. get_study_logs_for_week verify_token today (Some (isoformat d)) cr db = Inr r
           \<and> resp_week_start r = isoformat d"
proof -
  have p: "strptime_date (isoformat d) = Inr d" using assms(2) by (rule strptime_isoformat)
  then have "isoformat d \<noteq> []" using strptime_date_Nil by auto
  with p have s: "resolve_start_date (Some (isoformat d)) today = Inr d" by (simp add: resolve_start_date_def)
  obtain e where e: "date_add d 6 = Inr e"
    using date_add_ok [of d 6] assms(3) toordinal_range [OF assms(2)] by auto
  show ?thesis using assms(1) s e by (auto simp: get_study_logs_for_week_Inr Let_def)
qed

theorem get_echo_canonical_witness:
  "\<exists>r. get_study_logs_for_week demo_verifier (Date 2024 3 20) (Some (isoformat (Date 2024 2 29))) (demo_cred ''tok'') [] = Inr r
     \<and> resp_week_start r = isoformat (Date 2024 2 29)"
proof -
  have "valid_date (Date 2024 2 29)" "toordinal (Date 2024 2 29) + 6 \<le> MAXORDINAL" by code_simp+
  then show ?thesis using get_echo_canonical [OF demo_auth] by blast
qed

text \<open>
  C17. An empty week_start ("?week_start=") is treated as an absent one: GET answers the
  default window ending today instead of rejecting the value.
\<close>

theorem get_empty_week_start:
  "get_study_logs_for_week verify_token today (Some []) cr db = get_study_logs_for_week verify_token today None cr db"
  by (simp add: get_study_logs_for_week_def resolve_start_date_def)

text \<open>
  C18. A well-formed week_start whose window runs past 9999-12-31 raises OverflowError in
  start_date + timedelta(days=6), which reaches the client as a server error (500).
\<close>

theorem get_week_start_overflow:
  assumes "authenticate verify_token cr = Inr uid" "strptime_date s = Inr d" "MAXORDINAL < toordinal d + 6"
  shows "get_study_logs_for_week verify_token today (Some s) cr db = Inl OverflowError
         \<and> status_of OverflowError = 500"
proof -
  have "s \<noteq> []" using assms(2) strptime_date_Nil by auto
  then have "resolve_start_date (Some s) today = Inr d" using assms(2) by (simp add: resolve_start_date_def)
  moreover have "date_add d 6 = Inl OverflowError" using assms(3) by (simp add: date_add_overflow)
  ultimately show ?thesis using assms(1) by (simp add: get_study_logs_for_week_def)
qed

theorem get_week_start_overflow_witness:
  "get_study_logs_for_week demo_verifier (Date 2024 3 10) (Some ''9999-12-30'') (demo_cred ''tok'') [] = Inl OverflowError
   \<and> status_of OverflowError = 500"
proof -
  have "strptime_date ''9999-12-30'' = Inr (Date 9999 12 30)" by code_simp
  moreover have "MAXORDINAL < toordinal (Date 9999 12 30) + 6" by code_simp
  ultimately show ?thesis using get_week_start_overflow [OF demo_auth] by blast
qed

text \<open>
  C19. strptime with "%Y-%m-%d" also accepts months and days written with one digit:
  week_start "2024-3-5" is accepted and echoed as "2024-03-05".
\<close>

theorem get_week_start_non_canonical:
  assumes "authenticate verify_token cr = Inr uid"
  shows "\<exists>r. get_study_logs_for_week verify_token today (Some ''2024-3-5'') cr db = Inr r
           \<and> resp_week_start r = ''2024-03-05''"
proof -
  have "resolve_start_date (Some ''2024-3-5'') today = Inr (Date 2024 3 5)"
    by (simp add: resolve_start_date_def) code_simp
  moreover have "date_add (Date 2024 3 5) 6 = Inr (Date 2024 3 11)" by code_simp
  moreover have "isoformat (Date 2024 3 5) = ''2024-03-05''" by code_simp
  ultimately show ?thesis using assms by (auto simp: get_study_logs_for_week_Inr Let_def)
qed

theorem get_week_start_non_canonical_witness:
  "\<exists>r. get_study_logs_for_week demo_verifier (Date 2024 3 20) (Some ''2024-3-5'') (demo_cred ''tok'') [] = Inr r
     \<and> resp_week_start r = ''2024-03-05''"
  using get_week_start_non_canonical [OF demo_auth] by blast

text \<open>
  C21. Bounds of the answer: in every successful GET on a table of real dates, the
  echoed week_start and each of the keys are ten characters long (YYYY-MM-DD).
\<close>

theorem get_keys_length:
  assumes "get_study_logs_for_week verify_token today ws cr db = Inr r" "valid_rows db"
  shows "length (resp_week_start r) = 10 \<and> (\<forall>k \<in> set (map fst (resp_logs r)). length k = 10)"
proof -
  obtain start e where s: "resolve_start_date ws today = Inr start" and e: "date_add start 6 = Inr e"
    and w: "resp_week_start r = isoformat start" and k: "map fst (resp_logs r) = map isoformat (week_days start)"
    using get_study_logs_for_week_keys [OF assms] by blast
  note v = resolve_start_date_valid [OF s]
  have "\<forall>d \<in> set (week_days start). length (isoformat d) = 10"
    using week_days_valid [OF v e] isoformat_length by blast
  with w k isoformat_length [OF v] show ?thesis by auto
qed

theorem get_keys_length_witness:
  "\<exists>r. get_study_logs_for_week demo_verifier (Date 2024 3 20) (Some ''2024-03-10'') (demo_cred ''tok'') [] = Inr r
     \<and> length (resp_week_start r) = 10 \<and> (\<forall>k \<in> set (map fst (resp_logs r)). length k = 10)"
proof -
  obtain r where g: "get_study_logs_for_week demo_verifier (Date 2024 3 20) (Some ''2024-03-10'') (demo_cred ''tok'') [] = Inr r"
    using demo_get_exists by blast
  have "valid_rows []" by (simp add: valid_rows_def)
  with g get_keys_length [OF g] show ?thesis by blast
qed

text \<open>
  C22. Without week_start, on the first six days of year 1 the default start
  today - timedelta(days=6) leaves the calendar: the handler raises OverflowError
  (a 500 response) instead of answering a week.
\<close>

theorem get_default_overflow:
  assumes "authenticate verify_token cr = Inr uid" "toordinal today < 7"
  shows "get_study_logs_for_week verify_token today None cr db = Inl OverflowError"
proof -
  have "date_add today (- 6) = Inl OverflowError" using assms(2) by (simp add: date_add_overflow)
  with assms(1) show ?thesis by (simp add: get_study_logs_for_week_def resolve_start_date_def)
qed

theorem get_default_overflow_witness:
  "get_study_logs_for_week demo_verifier (Date 1 1 3) None (demo_cred ''tok'') [] = Inl OverflowError"
proof -
  have "toordinal (Date 1 1 3) < 7" by code_simp
  with get_default_overflow [OF demo_auth] show ?thesis by blast
qed

text \<open>
  C15. GET on any table of real dates, duplicate rows included, answers each day of
  the window with the minutes of the user's last row for that day in scan order (0
  when there is none), and totals those: two rows for one day (what the race of C13
  leaves behind) are not summed, the earlier one is hidden.
\<close>

theorem get_reports_last_row:
  assumes "get_study_logs_for_week verify_token today ws cr db = Inr r"
    and "authenticate verify_token cr = Inr uid" "resolve_start_date ws today = Inr start" "valid_rows db"
  shows "resp_logs r = map (\<lambda>d. (isoformat d, last_row_minutes db (uid, d))) (week_days start)
         \<and> resp_total r = sum_list (map (\<lambda>d. last_row_minutes db (uid, d)) (week_days start))"
proof -
  from assms(1) obtain uid' start' e where a: "authenticate verify_token cr = Inr uid'"
    and s: "resolve_start_date ws today = Inr start'" and e: "date_add start' 6 = Inr e"
    and r: "r = (let res = fill_logs (map (\<lambda>d. (isoformat d, 0)) (week_days start')) (query_week_logs db uid' start' e)
              in \<lparr>resp_week_start = isoformat start', resp_logs = res, resp_total = sum_list (map snd res)\<rparr>)"
    unfolding get_study_logs_for_week_Inr by blast
  from a s assms(2,3) have "uid' = uid" "start' = start" by simp_all
  with r fill_logs_last [OF resolve_start_date_valid [OF s] e assms(4)] show ?thesis
    by (simp add: Let_def comp_def)
qed


theorem get_reports_last_row_witness:
  "\<exists>r. get_study_logs_for_week demo_verifier (Date 2024 3 20) (Some ''2024-03-10'') (demo_cred ''tok'')
         [\<lparr>user_id = JStr ''u1'', date = Date 2024 3 10, minutes = 20\<rparr>,
          \<lparr>user_id = JStr ''u1'', date = Date 2024 3 10, minutes = 25\<rparr>] = Inr r
     \<and> resp_logs r = map (\<lambda>d. (isoformat d, last_row_minutes
          [\<lparr>user_id = JStr ''u1'', date = Date 2024 3 10, minutes = 20\<rparr>,
           \<lparr>user_id = JStr ''u1'', date = Date 2024 3 10, minutes = 25\<rparr>] (JStr ''u1'', d))) (week_days (Date 2024 3 10))
     \<and> last_row_minutes
          [\<lparr>user_id = JStr ''u1'', date = Date 2024 3 10, minutes = 20\<rparr>,
           \<lparr>user_id = JStr ''u1'', date = Date 2024 3 10, minutes = 25\<rparr>] (JStr ''u1'', Date 2024 3 10) = 25"
proof -
  let ?db = "[\<lparr>user_id = JStr ''u1'', date = Date 2024 3 10, minutes = 20\<rparr>,
              \<lparr>user_id = JStr ''u1'', date = Date 2024 3 10, minutes = 25\<rparr>]"
  obtain r where g: "get_study_logs_for_week demo_verifier (Date 2024 3 20) (Some ''2024-03-10'') (demo_cred ''tok'') ?db = Inr r"
    using demo_get_exists by blast
  have "valid_rows ?db" by code_simp
  moreover have "last_row_minutes ?db (JStr ''u1'', Date 2024 3 10) = 25"
    by (simp add: last_row_minutes_def log_key_def)
  ultimately show ?thesis using g get_reports_last_row [OF g demo_auth demo_resolve] by blast
qed


text \<open>
  C20. POST accepts negative minutes: for every verifier and table with unique keys,
  an authenticated request whose minutes bring the user's total for today below 0 is
  committed, answers a negative total and leaves a row with negative minutes.
\<close>

theorem add_study_time_accepts_negative:
  assumes "authenticate verify_token cr = Inr uid" "unique_logs db"
    and "stored_minutes db (uid, today) + req_minutes req < 0"
  shows "\<exists>resp db'. add_study_time verify_token today req cr db = Inr (resp, db')
           \<and> resp_minutes resp < 0 \<and> stored_minutes db' (uid, today) < 0 \<and> \<not> nonneg_minutes db'"
proof -
  let ?v = "stored_minutes db (uid, today) + req_minutes req"
  obtain db' where s: "add_study_time verify_token today req cr db =
            Inr (\<lparr>message = ''Study time added'', resp_date = isoformat today, resp_minutes = ?v\<rparr>, db')"
    and t: "abs_table db' = (abs_table db)((uid, today) \<mapsto> ?v)"
    using add_study_time_step [OF assms(1,2)] by blast
  from t have "abs_table db' (uid, today) = Some ?v" by simp
  then obtain l where "l \<in> set db'" "minutes l = ?v" using abs_table_Some_row by blast
  with assms(3) have "l \<in> set db' \<and> minutes l < 0" by simp
  then have "\<not> nonneg_minutes db'" unfolding nonneg_minutes_def by (meson not_le)
  moreover have "stored_minutes db' (uid, today) = ?v" using t by (simp add: stored_minutes_def)
  ultimately show ?thesis using s assms(3) by auto
qed


theorem add_study_time_accepts_negative_witness:
  "\<exists>resp db'. add_study_time demo_verifier (Date 2024 3 10) \<lparr>req_minutes = -30\<rparr> (demo_cred ''tok'') [] = Inr (resp, db')
     \<and> resp_minutes resp < 0 \<and> stored_minutes db' (JStr ''u1'', Date 2024 3 10) < 0 \<and> \<not> nonneg_minutes db'"
proof -
  have "unique_logs []" by (simp add: unique_logs_def)
  moreover have "stored_minutes [] (JStr ''u1'', Date 2024 3 10) + req_minutes \<lparr>req_minutes = -30\<rparr> < 0"
    by (simp add: stored_minutes_def abs_table_def)
  ultimately show ?thesis using add_study_time_accepts_negative [OF demo_auth] by blast
qed


end
