(* ===== verification/Concurrency.thy ===== *)
theory Concurrency
  imports Router
begin

text \<open>
  Concurrent POST requests. The handler of \<^verbatim>\<open>add_study_time\<close> runs in two phases
  against the shared table: the query of line 30 loads today's row (its position
  and the minutes it held), and the commit of line 38 writes back the value
  computed from what was loaded (\<^verbatim>\<open>log.minutes += req.minutes\<close> issues an
  \<^verbatim>\<open>UPDATE\<close> of the new absolute value) or inserts a new row. Requests of other
  clients may commit between the two phases. The hardened design of spec section
  5 performs the find-and-increment as one atomic step at commit time.
\<close>

record pending =
  p_uid :: jval
  p_day :: date
  p_minutes :: int
  p_seen :: "(nat \<times> int) option"

record config =
  c_db :: table
  c_pending :: "pending list"
  c_begun :: "(jval \<times> date \<times> int) list"

text \<open>Line 30: the row found for the user today, with the minutes it held when read.\<close>

definition read_phase :: "table \<Rightarrow> jval \<Rightarrow> date \<Rightarrow> int \<Rightarrow> pending" where
  "read_phase db uid today m =
     \<lparr>p_uid = uid, p_day = today, p_minutes = m,
      p_seen = map_option (\<lambda>i. (i, minutes (db ! i))) (find_today_log db uid today)\<rparr>"

text \<open>Lines 32--38: write back the loaded value plus the request's minutes, or insert.\<close>

definition commit_phase :: "table \<Rightarrow> pending \<Rightarrow> table" where
  "commit_phase db p =
     (case p_seen p of
        Some (i, v) \<Rightarrow> db[i := (db ! i)\<lparr>minutes := v + p_minutes p\<rparr>]
      | None \<Rightarrow> db @ [\<lparr>user_id = p_uid p, date = p_day p, minutes = p_minutes p\<rparr>])"

text \<open>The hardened commit: find and increment (or insert) in one atomic step.\<close>

definition atomic_commit :: "table \<Rightarrow> pending \<Rightarrow> table" where
  "atomic_commit db p = snd (upsert_log db (p_uid p) (p_day p) (p_minutes p))"

definition remove_nth :: "nat \<Rightarrow> 'a list \<Rightarrow> 'a list" where
  "remove_nth i xs = take i xs @ drop (Suc i) xs"

text \<open>
  One step of the server: an authenticated request begins (its read phase runs
  on the current table), or one of the requests in flight commits.
\<close>

inductive racy_step :: "config \<Rightarrow> config \<Rightarrow> bool" where
  begin_req: "racy_step c
     \<lparr>c_db = c_db c, c_pending = c_pending c @ [read_phase (c_db c) uid today m],
      c_begun = c_begun c @ [(uid, today, m)]\<rparr>"
| commit_req: "i < length (c_pending c) \<Longrightarrow> racy_step c
     \<lparr>c_db = commit_phase (c_db c) (c_pending c ! i), c_pending = remove_nth i (c_pending c),
      c_begun = c_begun c\<rparr>"

inductive atomic_step :: "config \<Rightarrow> config \<Rightarrow> bool" where
  begin_req: "atomic_step c
     \<lparr>c_db = c_db c, c_pending = c_pending c @ [\<lparr>p_uid = uid, p_day = today, p_minutes = m, p_seen = None\<rparr>],
      c_begun = c_begun c @ [(uid, today, m)]\<rparr>"
| commit_req: "i < length (c_pending c) \<Longrightarrow> atomic_step c
     \<lparr>c_db = atomic_commit (c_db c) (c_pending c ! i), c_pending = remove_nth i (c_pending c),
      c_begun = c_begun c\<rparr>"

text \<open>Minutes submitted (or still to be committed) for a key.\<close>

definition submitted :: "(jval \<times> date \<times> int) list \<Rightarrow> jval \<times> date \<Rightarrow> int" where
  "submitted bs k = sum_list (map (\<lambda>(u, d, m). m) (filter (\<lambda>(u, d, m). (u, d) = k) bs))"

definition in_flight :: "pending list \<Rightarrow> jval \<times> date \<Rightarrow> int" where
  "in_flight ps k = sum_list (map p_minutes (filter (\<lambda>p. (p_uid p, p_day p) = k) ps))"

definition atomic_inv :: "table \<Rightarrow> config \<Rightarrow> bool" where
  "atomic_inv db0 c \<longleftrightarrow> unique_logs (c_db c)
     \<and> (\<forall>k. stored_minutes (c_db c) k + in_flight (c_pending c) k = stored_minutes db0 k + submitted (c_begun c) k)"

text \<open>The requests of the examples.\<close>

abbreviation demo_day :: date where "demo_day \<equiv> Date 2024 3 10"

abbreviation demo_pending :: "int \<Rightarrow> (nat \<times> int) option \<Rightarrow> pending" where
  "demo_pending m s \<equiv> \<lparr>p_uid = JStr ''u1'', p_day = demo_day, p_minutes = m, p_seen = s\<rparr>"

abbreviation demo_row :: "int \<Rightarrow> study_log" where
  "demo_row m \<equiv> \<lparr>user_id = JStr ''u1'', date = demo_day, minutes = m\<rparr>"

section \<open>Lemmas\<close>

lemma atomic_inv_init: "unique_logs db0 \<Longrightarrow> atomic_inv db0 \<lparr>c_db = db0, c_pending = [], c_begun = []\<rparr>"
  by (simp add: atomic_inv_def in_flight_def submitted_def)

lemma in_flight_remove_nth:
  "i < length ps \<Longrightarrow>
   in_flight ps k = in_flight (remove_nth i ps) k + (if (p_uid (ps ! i), p_day (ps ! i)) = k then p_minutes (ps ! i) else 0)"
proof -
  assume i: "i < length ps"
  have "ps = take i ps @ ps ! i # drop (Suc i) ps" using i by (simp add: id_take_nth_drop)
  then have "in_flight ps k = in_flight (take i ps @ ps ! i # drop (Suc i) ps) k" by simp
  then show ?thesis by (simp add: in_flight_def remove_nth_def)
qed

lemma atomic_commit_step:
  assumes "unique_logs db"
  shows "unique_logs (atomic_commit db p)
    \<and> stored_minutes (atomic_commit db p) k
        = stored_minutes db k + (if (p_uid p, p_day p) = k then p_minutes p else 0)"
proof -
  obtain log db' where u: "upsert_log db (p_uid p) (p_day p) (p_minutes p) = (log, db')"
    by (cases "upsert_log db (p_uid p) (p_day p) (p_minutes p)")
  from upsert_log_refines [OF assms u] show ?thesis
    by (auto simp: atomic_commit_def u stored_minutes_def)
qed

lemma atomic_step_inv:
  assumes "atomic_step c c'" "atomic_inv db0 c"
  shows "atomic_inv db0 c'"
  using assms
proof (induction rule: atomic_step.induct)
  case (begin_req c uid today m)
  then show ?case by (auto simp: atomic_inv_def in_flight_def submitted_def)
next
  case (commit_req i c)
  let ?p = "c_pending c ! i"
  have u: "unique_logs (c_db c)"
    and e: "\<And>k. stored_minutes (c_db c) k + in_flight (c_pending c) k = stored_minutes db0 k + submitted (c_begun c) k"
    using commit_req.prems unfolding atomic_inv_def by blast+
  have "stored_minutes (atomic_commit (c_db c) ?p) k + in_flight (remove_nth i (c_pending c)) k
        = stored_minutes db0 k + submitted (c_begun c) k" for k
    using atomic_commit_step [OF u, of ?p k] in_flight_remove_nth [OF commit_req.hyps, of k] e [of k] by simp
  with atomic_commit_step [OF u] show ?case by (simp add: atomic_inv_def)
qed

lemma atomic_reach_inv:
  "atomic_step\<^sup>*\<^sup>* c c' \<Longrightarrow> atomic_inv db0 c \<Longrightarrow> atomic_inv db0 c'"
  by (induction rule: rtranclp_induct) (auto intro: atomic_step_inv)

lemma two_phase_upsert:
  "commit_phase db (read_phase db uid today m) = snd (upsert_log db uid today m)"
  by (cases "find_today_log db uid today") (simp_all add: commit_phase_def read_phase_def upsert_log_def Let_def)

section \<open>Properties of concurrent requests\<close>

text \<open>
  C12. Hardened design (spec section 5): when the find-and-increment runs as one atomic
  step, any interleaving of concurrent POST requests that have all committed leaves
  at most one row per user and day, holding the initial minutes plus the sum of all
  minutes submitted for that user and day.
\<close>

theorem atomic_requests_sum:
  assumes "atomic_step\<^sup>*\<^sup>* \<lparr>c_db = db0, c_pending = [], c_begun = []\<rparr> c" "unique_logs db0"
    and "c_pending c = []"
  shows "unique_logs (c_db c) \<and> (\<forall>k. stored_minutes (c_db c) k = stored_minutes db0 k + submitted (c_begun c) k)"
  using atomic_reach_inv [OF assms(1) atomic_inv_init [OF assms(2)]] assms(3)
  by (simp add: atomic_inv_def in_flight_def)

theorem atomic_requests_sum_witness:
  "atomic_step\<^sup>*\<^sup>* \<lparr>c_db = [], c_pending = [], c_begun = []\<rparr>
      \<lparr>c_db = [demo_row 45], c_pending = [], c_begun = [(JStr ''u1'', demo_day, 20), (JStr ''u1'', demo_day, 25)]\<rparr>
   \<and> unique_logs [demo_row 45]
   \<and> (\<forall>k. stored_minutes [demo_row 45] k
            = stored_minutes [] k + submitted [(JStr ''u1'', demo_day, 20), (JStr ''u1'', demo_day, 25)] k)"
proof -
  let ?b = "[(JStr ''u1'', demo_day, 20), (JStr ''u1'', demo_day, 25)]"
  have s1: "atomic_step \<lparr>c_db = [], c_pending = [], c_begun = []\<rparr>
      \<lparr>c_db = [], c_pending = [demo_pending 20 None], c_begun = [(JStr ''u1'', demo_day, 20)]\<rparr>"
    using atomic_step.begin_req [of "\<lparr>c_db = [], c_pending = [], c_begun = []\<rparr>" "JStr ''u1''" demo_day 20] by simp
  have s2: "atomic_step \<lparr>c_db = [], c_pending = [demo_pending 20 None], c_begun = [(JStr ''u1'', demo_day, 20)]\<rparr>
      \<lparr>c_db = [], c_pending = [demo_pending 20 None, demo_pending 25 None], c_begun = ?b\<rparr>"
    using atomic_step.begin_req [of "\<lparr>c_db = [], c_pending = [demo_pending 20 None], c_begun = [(JStr ''u1'', demo_day, 20)]\<rparr>" "JStr ''u1''" demo_day 25] by simp
  have s3: "atomic_step \<lparr>c_db = [], c_pending = [demo_pending 20 None, demo_pending 25 None], c_begun = ?b\<rparr>
      \<lparr>c_db = [demo_row 20], c_pending = [demo_pending 25 None], c_begun = ?b\<rparr>"
    using atomic_step.commit_req [of 0 "\<lparr>c_db = [], c_pending = [demo_pending 20 None, demo_pending 25 None], c_begun = ?b\<rparr>"]
    by (simp add: atomic_commit_def upsert_log_def find_today_log_def remove_nth_def Let_def)
  have s4: "atomic_step \<lparr>c_db = [demo_row 20], c_pending = [demo_pending 25 None], c_begun = ?b\<rparr>
      \<lparr>c_db = [demo_row 45], c_pending = [], c_begun = ?b\<rparr>"
    using atomic_step.commit_req [of 0 "\<lparr>c_db = [demo_row 20], c_pending = [demo_pending 25 None], c_begun = ?b\<rparr>"]
    by (simp add: atomic_commit_def upsert_log_def find_today_log_def remove_nth_def Let_def)
  have r: "atomic_step\<^sup>*\<^sup>* \<lparr>c_db = [], c_pending = [], c_begun = []\<rparr> \<lparr>c_db = [demo_row 45], c_pending = [], c_begun = ?b\<rparr>"
    using s1 s2 s3 s4 by (meson rtranclp.rtrancl_into_rtrancl rtranclp.rtrancl_refl)
  have "unique_logs []" by (simp add: unique_logs_def)
  from atomic_requests_sum [OF r this] r show ?thesis by simp
qed

text \<open>
  C13. Race in the code as written: two concurrent POSTs of the same user on a day with
  no row both find no row at line 30 and both insert one, leaving two rows for the
  same user and day.
\<close>

theorem racy_duplicate_rows:
  "racy_step\<^sup>*\<^sup>* \<lparr>c_db = [], c_pending = [], c_begun = []\<rparr>
      \<lparr>c_db = [demo_row 20, demo_row 25], c_pending = [],
       c_begun = [(JStr ''u1'', demo_day, 20), (JStr ''u1'', demo_day, 25)]\<rparr>
   \<and> \<not> unique_logs [demo_row 20, demo_row 25]"
proof -
  let ?b = "[(JStr ''u1'', demo_day, 20), (JStr ''u1'', demo_day, 25)]"
  have s1: "racy_step \<lparr>c_db = [], c_pending = [], c_begun = []\<rparr>
      \<lparr>c_db = [], c_pending = [demo_pending 20 None], c_begun = [(JStr ''u1'', demo_day, 20)]\<rparr>"
    using racy_step.begin_req [of "\<lparr>c_db = [], c_pending = [], c_begun = []\<rparr>" "JStr ''u1''" demo_day 20]
    by (simp add: read_phase_def find_today_log_def)
  have s2: "racy_step \<lparr>c_db = [], c_pending = [demo_pending 20 None], c_begun = [(JStr ''u1'', demo_day, 20)]\<rparr>
      \<lparr>c_db = [], c_pending = [demo_pending 20 None, demo_pending 25 None], c_begun = ?b\<rparr>"
    using racy_step.begin_req [of "\<lparr>c_db = [], c_pending = [demo_pending 20 None], c_begun = [(JStr ''u1'', demo_day, 20)]\<rparr>" "JStr ''u1''" demo_day 25]
    by (simp add: read_phase_def find_today_log_def)
  have s3: "racy_step \<lparr>c_db = [], c_pending = [demo_pending 20 None, demo_pending 25 None], c_begun = ?b\<rparr>
      \<lparr>c_db = [demo_row 20], c_pending = [demo_pending 25 None], c_begun = ?b\<rparr>"
    using racy_step.commit_req [of 0 "\<lparr>c_db = [], c_pending = [demo_pending 20 None, demo_pending 25 None], c_begun = ?b\<rparr>"]
    by (simp add: commit_phase_def remove_nth_def)
  have s4: "racy_step \<lparr>c_db = [demo_row 20], c_pending = [demo_pending 25 None], c_begun = ?b\<rparr>
      \<lparr>c_db = [demo_row 20, demo_row 25], c_pending = [], c_begun = ?b\<rparr>"
    using racy_step.commit_req [of 0 "\<lparr>c_db = [demo_row 20], c_pending = [demo_pending 25 None], c_begun = ?b\<rparr>"]
    by (simp add: commit_phase_def remove_nth_def)
  have "\<not> unique_logs [demo_row 20, demo_row 25]" by (simp add: unique_logs_def log_key_def)
  with s1 s2 s3 s4 show ?thesis by (meson rtranclp.rtrancl_into_rtrancl rtranclp.rtrancl_refl)
qed

text \<open>
  C14. Lost update in the code as written: two concurrent POSTs of 20 and 25 minutes on a
  row holding 10 both read 10, and the later commit overwrites the earlier one: the
  row ends with 35 minutes instead of 55.
\<close>

theorem racy_lost_update:
  "racy_step\<^sup>*\<^sup>* \<lparr>c_db = [demo_row 10], c_pending = [], c_begun = []\<rparr>
      \<lparr>c_db = [demo_row 35], c_pending = [],
       c_begun = [(JStr ''u1'', demo_day, 20), (JStr ''u1'', demo_day, 25)]\<rparr>
   \<and> stored_minutes [demo_row 35] (JStr ''u1'', demo_day) = 35
   \<and> stored_minutes [demo_row 10] (JStr ''u1'', demo_day)
       + submitted [(JStr ''u1'', demo_day, 20), (JStr ''u1'', demo_day, 25)] (JStr ''u1'', demo_day) = 55"
proof -
  let ?b = "[(JStr ''u1'', demo_day, 20), (JStr ''u1'', demo_day, 25)]"
  have s1: "racy_step \<lparr>c_db = [demo_row 10], c_pending = [], c_begun = []\<rparr>
      \<lparr>c_db = [demo_row 10], c_pending = [demo_pending 20 (Some (0, 10))], c_begun = [(JStr ''u1'', demo_day, 20)]\<rparr>"
    using racy_step.begin_req [of "\<lparr>c_db = [demo_row 10], c_pending = [], c_begun = []\<rparr>" "JStr ''u1''" demo_day 20]
    by (simp add: read_phase_def find_today_log_def)
  have s2: "racy_step \<lparr>c_db = [demo_row 10], c_pending = [demo_pending 20 (Some (0, 10))], c_begun = [(JStr ''u1'', demo_day, 20)]\<rparr>
      \<lparr>c_db = [demo_row 10], c_pending = [demo_pending 20 (Some (0, 10)), demo_pending 25 (Some (0, 10))], c_begun = ?b\<rparr>"
    using racy_step.begin_req [of "\<lparr>c_db = [demo_row 10], c_pending = [demo_pending 20 (Some (0, 10))], c_begun = [(JStr ''u1'', demo_day, 20)]\<rparr>" "JStr ''u1''" demo_day 25]
    by (simp add: read_phase_def find_today_log_def)
  have s3: "racy_step \<lparr>c_db = [demo_row 10], c_pending = [demo_pending 20 (Some (0, 10)), demo_pending 25 (Some (0, 10))], c_begun = ?b\<rparr>
      \<lparr>c_db = [demo_row 30], c_pending = [demo_pending 25 (Some (0, 10))], c_begun = ?b\<rparr>"
    using racy_step.commit_req [of 0 "\<lparr>c_db = [demo_row 10], c_pending = [demo_pending 20 (Some (0, 10)), demo_pending 25 (Some (0, 10))], c_begun = ?b\<rparr>"]
    by (simp add: commit_phase_def remove_nth_def)
  have s4: "racy_step \<lparr>c_db = [demo_row 30], c_pending = [demo_pending 25 (Some (0, 10))], c_begun = ?b\<rparr>
      \<lparr>c_db = [demo_row 35], c_pending = [], c_begun = ?b\<rparr>"
    using racy_step.commit_req [of 0 "\<lparr>c_db = [demo_row 30], c_pending = [demo_pending 25 (Some (0, 10))], c_begun = ?b\<rparr>"]
    by (simp add: commit_phase_def remove_nth_def)
  have "stored_minutes [demo_row 35] (JStr ''u1'', demo_day) = 35"
    "stored_minutes [demo_row 10] (JStr ''u1'', demo_day) + submitted ?b (JStr ''u1'', demo_day) = 55"
    by (simp_all add: stored_minutes_def abs_table_def log_key_def submitted_def)
  with s1 s2 s3 s4 show ?thesis by (meson rtranclp.rtrancl_into_rtrancl rtranclp.rtrancl_refl)
qed

end
