(* ===== verification/Spec2Isabelle.thy ===== *)
theory Spec2Isabelle
  imports Calendar Auth Store Strptime Router Concurrency
begin

text \<open>
  \<^bold>\<open>Study-log service: a verification development.\<close>

  The program is \<^verbatim>\<open>src/routers/study_router.py\<close>, a FastAPI router with two
  endpoints over one table of \<^verbatim>\<open>StudyLog\<close> rows \<open>(user_id, date, minutes)\<close>:
  \<^verbatim>\<open>POST /api/study_logs\<close> (\<^verbatim>\<open>add_study_time\<close>, lines 18--40) adds minutes to the
  caller's row for today, creating it when absent; \<^verbatim>\<open>GET /api/study_logs\<close>
  (\<^verbatim>\<open>get_study_logs_for_week\<close>, lines 43--83) answers the seven days starting at
  \<^verbatim>\<open>week_start\<close> (default: the week ending today), zero-filled, with their total.
  Both first resolve the \<^verbatim>\<open>HTTPBearer\<close> dependency, verify the token with the
  external \<^verbatim>\<open>verify_token\<close> and read its \<^verbatim>\<open>sub\<close> claim.

  \<^bold>\<open>Theories.\<close>
  \<^item> \<open>Prelude\<close>: the exceptions (\<open>exc\<close>: \<open>ValueError\<close>, \<open>OverflowError\<close>, FastAPI's
    \<open>HTTPException\<close>) and the result type \<open>exc + 'a\<close> with its bind; decoded JSON
    values; Python's insertion-ordered \<^verbatim>\<open>dict\<close> (\<open>dict_setitem\<close>); the ORM's
    \<^verbatim>\<open>.first()\<close> (\<open>first_index\<close>); shared lemmas on association lists.
  \<^item> \<open>Calendar\<close>: CPython's \<^verbatim>\<open>datetime.date\<close> (from \<^verbatim>\<open>Lib/datetime.py\<close>, not in
    the sources): \<open>ymd2ord\<close>/\<open>ord2ymd\<close>, \<open>toordinal\<close>/\<open>fromordinal\<close>, \<open>date_add\<close>
    (date plus timedelta, \<open>OverflowError\<close> outside years 1..9999), \<open>isoformat\<close>
    (\<^verbatim>\<open>str(date)\<close>) and the field-wise order. Lemmas: \<open>ord2ymd\<close> inverts
    \<open>ymd2ord\<close>, \<open>toordinal\<close> is an order isomorphism onto \<open>[1, 3652059]\<close>,
    \<open>date_add\<close> composes additively.
  \<^item> \<open>Strptime\<close>: \<^verbatim>\<open>datetime.strptime(s, "%Y-%m-%d").date()\<close> as CPython's
    \<^verbatim>\<open>_strptime\<close> builds it: a backtracking regular expression (list of
    successes, \<^verbatim>\<open>re.match\<close> is the first), the unconverted-data check, \<^verbatim>\<open>int()\<close>
    and the date check. Lemma: it inverts \<open>isoformat\<close> on valid dates.
  \<^item> \<open>Auth\<close>: \<^verbatim>\<open>HTTPBearer\<close> (403 on a missing or non-bearer header) and the
    subject check of lines 24--27 / 49--52 (\<open>authenticate\<close>). \<^verbatim>\<open>verify_token\<close> is a
    parameter of type \<open>verifier\<close>: every theorem holds for every verifier.
  \<^item> \<open>Store\<close>: the table as a list of rows in scan order, the queries of lines 30
    and 66--70, the key uniqueness invariant \<open>unique_logs\<close> and the abstraction
    \<open>abs_table\<close> to a finite map from (user, day) to minutes.
  \<^item> \<open>Router\<close>: the two handlers (\<open>add_study_time\<close> with \<open>upsert_log\<close>;
    \<open>get_study_logs_for_week\<close> with \<open>resolve_start_date\<close>, \<open>init_week\<close>,
    \<open>fill_logs\<close>) and the routes (\<open>post_study_logs\<close>, \<open>get_study_logs\<close>), each a
    function of the verifier, today's date, the request and the table, returning the
    response (and the committed table) or the exception. Lemmas and claims C1--C9
    and C15--C22: refinement of a map update (POST, C1) and of the abstract week
    view \<open>week_spec\<close> (GET, C2), and GET on any table, duplicates included (C15);
    the shape of the window (C3, C4, C5, C6, C21); the error paths and their order
    (C7, C8, C9, C18, C22); the round trip of \<^verbatim>\<open>week_start\<close> (C16); and the edge
    behaviours recorded as findings (C15, C17, C19, C20).
  \<^item> \<open>Concurrency\<close>: POST split into its read (line 30) and commit (lines 32--38)
    phases, interleaved across requests (\<open>racy_step\<close>), against the hardened
    atomic upsert of spec section 5 (\<open>atomic_step\<close>). Claims C12--C14.
  \<^item> This theory: a server processing a sequence of requests (\<open>serve\<close>, \<open>run\<close>,
    \<open>reachable\<close>), with the invariant of the table (C10) and additivity over any
    sequence of requests (C11).

  \<^bold>\<open>Modelling choices.\<close> Python ints are \<open>int\<close>; \<^verbatim>\<open>date.today()\<close> is a parameter
  \<open>today\<close> of each request; a committed table is the handler's returned table and
  an exception leaves the table unchanged (no partial commit happens before the
  single \<^verbatim>\<open>db.commit()\<close>); \<^verbatim>\<open>db.refresh(log)\<close> reads back the row just written.
  No fuel is needed: every loop of the code (\<^verbatim>\<open>range(7)\<close>, the rows of a query,
  the regex backtracking) is structural recursion.

  \<^bold>\<open>Not modelled.\<close> \<^verbatim>\<open>verify_token\<close> (\<^verbatim>\<open>utils/security\<close>, not in the sources) beyond
  its interface; the database session lifecycle (\<^verbatim>\<open>db/database.get_db\<close>) and
  storage failures; JSON serialisation of the responses; Unicode digits, which
  Python's \<^verbatim>\<open>\d\<close> also matches in \<^verbatim>\<open>strptime\<close> (the model accepts ASCII digits only).
\<close>

section \<open>A server processing a sequence of requests\<close>

text \<open>
  A request to one of the two routes, the response it gets, and the table after it:
  a failed request leaves the table as it was.
\<close>

datatype request = PostReq "string option" study_time_request | GetReq "string option" "string option"

datatype response = PostResp "add_response result" | GetResp "week_response result"

fun serve :: "verifier \<Rightarrow> date \<Rightarrow> request \<Rightarrow> table \<Rightarrow> response \<times> table" where
  "serve verify_token today (PostReq h req) db =
     (case post_study_logs verify_token today h req db of
        Inl e \<Rightarrow> (PostResp (Inl e), db)
      | Inr (r, db') \<Rightarrow> (PostResp (Inr r), db'))"
| "serve verify_token today (GetReq h ws) db = (GetResp (get_study_logs verify_token today h ws db), db)"

fun run :: "verifier \<Rightarrow> (date \<times> request) list \<Rightarrow> table \<Rightarrow> table" where
  "run verify_token [] db = db"
| "run verify_token ((today, rq) # evs) db = run verify_token evs (snd (serve verify_token today rq db))"

inductive reachable :: "verifier \<Rightarrow> table \<Rightarrow> bool" for verify_token where
  init: "reachable verify_token []"
| step: "reachable verify_token db \<Longrightarrow> valid_date today \<Longrightarrow> serve verify_token today rq db = (resp, db')
         \<Longrightarrow> reachable verify_token db'"

definition caller :: "verifier \<Rightarrow> string option \<Rightarrow> jval result" where
  "caller verify_token h = bind_exc (http_bearer h) (authenticate verify_token)"

definition contribution :: "verifier \<Rightarrow> date \<times> request \<Rightarrow> jval \<times> date \<Rightarrow> int" where
  "contribution verify_token ev k =
     (case ev of (today, PostReq h req) \<Rightarrow> if caller verify_token h = Inr (fst k) \<and> today = snd k then req_minutes req else 0
               | (today, GetReq h ws) \<Rightarrow> 0)"

definition posted :: "verifier \<Rightarrow> (date \<times> request) list \<Rightarrow> jval \<times> date \<Rightarrow> int" where
  "posted verify_token evs k = sum_list (map (\<lambda>ev. contribution verify_token ev k) evs)"


section \<open>Lemmas\<close>

lemma demo_bearer: "http_bearer (Some ''Bearer tok'') = Inr (demo_cred ''tok'')"
  by code_simp

lemma serve_step:
  assumes "unique_logs db"
  shows "unique_logs (snd (serve verify_token today rq db))
    \<and> stored_minutes (snd (serve verify_token today rq db)) k = stored_minutes db k + contribution verify_token (today, rq) k
    \<and> set (snd (serve verify_token today rq db)) \<subseteq> set db \<union> {l. date l = today}"
proof (cases rq)
  case (GetReq h ws)
  then show ?thesis using assms by (simp add: contribution_def)
next
  case (PostReq h req)
  show ?thesis
  proof (cases "caller verify_token h")
    case (Inl e)
    then have "post_study_logs verify_token today h req db = Inl e"
      by (auto simp: caller_def post_study_logs_def add_study_time_def split: sum.splits)
    with Inl PostReq assms show ?thesis by (simp add: contribution_def)
  next
    case (Inr uid)
    then obtain cr where b: "http_bearer h = Inr cr" and a: "authenticate verify_token cr = Inr uid"
      by (auto simp: caller_def)
    obtain db' where s: "add_study_time verify_token today req cr db =
            Inr (\<lparr>message = ''Study time added'', resp_date = isoformat today,
                  resp_minutes = stored_minutes db (uid, today) + req_minutes req\<rparr>, db')"
      and u: "unique_logs db'"
      and t: "abs_table db' = (abs_table db)((uid, today) \<mapsto> stored_minutes db (uid, today) + req_minutes req)"
      using add_study_time_step [OF a assms] by blast
    have sv: "snd (serve verify_token today rq db) = db'"
      using PostReq b s by (simp add: post_study_logs_def)
    have "set db' \<subseteq> set db \<union> {l. date l = today}"
      using add_study_time_rows [OF s] by auto
    with sv u t Inr PostReq show ?thesis by (auto simp: contribution_def stored_minutes_def)
  qed
qed

section \<open>Properties of request sequences\<close>

text \<open>
  C10. Invariant of the table: in every table reachable from the empty table by
  requests of either endpoint (on valid dates, with any verifier), each user has at
  most one row per day and every row holds a real date.
\<close>

theorem reachable_invariant:
  "reachable verify_token db \<Longrightarrow> unique_logs db \<and> valid_rows db"
proof (induction rule: reachable.induct)
  case init
  then show ?case by (simp add: unique_logs_def valid_rows_def)
next
  case (step db today rq resp db')
  then have d: "db' = snd (serve verify_token today rq db)" by simp
  from serve_step [of db verify_token today rq] step.IH
  have "unique_logs db'" and s: "set db' \<subseteq> set db \<union> {l. date l = today}"
    unfolding d by blast+
  moreover have "valid_rows db'"
    unfolding valid_rows_def
  proof
    fix l assume "l \<in> set db'"
    with s have "l \<in> set db \<or> date l = today" by blast
    with step.IH step.hyps(2) show "valid_date (date l)" by (auto simp: valid_rows_def)
  qed
  ultimately show ?case by blast
qed

theorem reachable_invariant_witness:
  "reachable demo_verifier [\<lparr>user_id = JStr ''u1'', date = Date 2024 3 10, minutes = 30\<rparr>]
   \<and> unique_logs [\<lparr>user_id = JStr ''u1'', date = Date 2024 3 10, minutes = 30\<rparr>]
   \<and> valid_rows [\<lparr>user_id = JStr ''u1'', date = Date 2024 3 10, minutes = 30\<rparr>]"
proof -
  have s: "serve demo_verifier (Date 2024 3 10) (PostReq (Some ''Bearer tok'') \<lparr>req_minutes = 30\<rparr>) [] =
      (PostResp (Inr \<lparr>message = ''Study time added'', resp_date = isoformat (Date 2024 3 10), resp_minutes = 30\<rparr>),
       [\<lparr>user_id = JStr ''u1'', date = Date 2024 3 10, minutes = 30\<rparr>])"
    by (simp add: post_study_logs_def demo_bearer add_study_time_authenticated [OF demo_auth]
        upsert_log_def find_today_log_def Let_def)
  have "valid_date (Date 2024 3 10)" by code_simp
  with s have "reachable demo_verifier [\<lparr>user_id = JStr ''u1'', date = Date 2024 3 10, minutes = 30\<rparr>]"
    by (blast intro: reachable.intros)
  with reachable_invariant show ?thesis by blast
qed

text \<open>
  C11. Additivity over any sequence of requests: processed one after the other, the
  requests leave for each user and day the initial minutes plus the sum of the minutes
  of the successful POSTs of that user on that day; GETs and refused requests change
  nothing, and no duplicate row appears.
\<close>

theorem run_additive:
  assumes "unique_logs db"
  shows "unique_logs (run verify_token evs db)
    \<and> (\<forall>k. stored_minutes (run verify_token evs db) k = stored_minutes db k + posted verify_token evs k)"
  using assms
proof (induction evs arbitrary: db)
  case Nil
  then show ?case by (simp add: posted_def)
next
  case (Cons ev evs db)
  obtain today rq where ev: "ev = (today, rq)" by (cases ev)
  let ?db = "snd (serve verify_token today rq db)"
  from serve_step [OF Cons.prems, of verify_token today rq]
  have u: "unique_logs ?db" and s: "\<And>k. stored_minutes ?db k = stored_minutes db k + contribution verify_token ev k"
    using ev by blast+
  from Cons.IH [OF u] s show ?case using ev by (simp add: posted_def)
qed

theorem run_additive_witness:
  "unique_logs (run demo_verifier [(Date 2024 3 10, PostReq (Some ''Bearer tok'') \<lparr>req_minutes = 20\<rparr>),
        (Date 2024 3 10, GetReq None None), (Date 2024 3 10, PostReq (Some ''Bearer tok'') \<lparr>req_minutes = 25\<rparr>)] [])
   \<and> stored_minutes (run demo_verifier [(Date 2024 3 10, PostReq (Some ''Bearer tok'') \<lparr>req_minutes = 20\<rparr>),
        (Date 2024 3 10, GetReq None None), (Date 2024 3 10, PostReq (Some ''Bearer tok'') \<lparr>req_minutes = 25\<rparr>)] [])
        (JStr ''u1'', Date 2024 3 10) = 45"
proof -
  let ?evs = "[(Date 2024 3 10, PostReq (Some ''Bearer tok'') \<lparr>req_minutes = 20\<rparr>),
        (Date 2024 3 10, GetReq None None), (Date 2024 3 10, PostReq (Some ''Bearer tok'') \<lparr>req_minutes = 25\<rparr>)]"
  have "unique_logs []" by (simp add: unique_logs_def)
  from run_additive [OF this, of demo_verifier ?evs]
  have u: "unique_logs (run demo_verifier ?evs [])"
    and e: "stored_minutes (run demo_verifier ?evs []) (JStr ''u1'', Date 2024 3 10)
            = stored_minutes [] (JStr ''u1'', Date 2024 3 10) + posted demo_verifier ?evs (JStr ''u1'', Date 2024 3 10)"
    by blast+
  have "posted demo_verifier ?evs (JStr ''u1'', Date 2024 3 10) = 45"
    by (simp add: posted_def contribution_def caller_def demo_bearer demo_auth)
  moreover have "stored_minutes [] (JStr ''u1'', Date 2024 3 10) = 0" by (simp add: stored_minutes_def abs_table_def)
  ultimately show ?thesis using u e by (simp only: add_0)
qed

end
